theory Spec2Isabelle
  imports Main "HOL-Library.AList" "HOL-Library.Sublist"
begin

section \<open>Python values and exceptions\<close>

text \<open>
  The values that configuration files, keyword overrides and engine results carry:
  None, booleans, integers, strings, lists and string-keyed dicts. A dict is an
  association list; a lookup reads the first binding of a key. Floats and dates are
  outside this value domain. A character stands for one code point.
\<close>

datatype pyval =
    PNone
  | PBool bool
  | PInt int
  | PStr string
  | PList "pyval list"
  | PDict "(string \<times> pyval) list"

text \<open>
  The subclasses of \<^verbatim>\<open>Exception\<close> that the modelled code can meet. \<^verbatim>\<open>KeyError k\<close> and
  \<^verbatim>\<open>AttributeError a\<close> carry the missing key or attribute. \<^verbatim>\<open>KeyboardInterrupt\<close> and
  \<^verbatim>\<open>SystemExit\<close> derive from \<^verbatim>\<open>BaseException\<close> only and are no values of this type.
\<close>

datatype py_error =
    AttributeError string
  | KeyError string
  | TypeError
  | ZeroDivisionError
  | OverflowError
  | OSError string
  | ParseError string
  | DownloadError string

text \<open>Truth value testing, as \<^verbatim>\<open>if v:\<close> does it.\<close>

fun truthy :: "pyval \<Rightarrow> bool" where
  "truthy PNone = False"
| "truthy (PBool b) = b"
| "truthy (PInt i) = (i \<noteq> 0)"
| "truthy (PStr s) = (s \<noteq> [])"
| "truthy (PList xs) = (xs \<noteq> [])"
| "truthy (PDict kvs) = (kvs \<noteq> [])"

text \<open>\<^verbatim>\<open>v[k]\<close> with a string key: only a dict can be subscripted by a string.\<close>

fun subscript :: "pyval \<Rightarrow> string \<Rightarrow> py_error + pyval" where
  "subscript (PDict kvs) k =
     (case map_of kvs k of None \<Rightarrow> Inl (KeyError k) | Some v \<Rightarrow> Inr v)"
| "subscript _ k = Inl TypeError"

text \<open>\<^verbatim>\<open>v.get(k, d)\<close>: only a dict has the method.\<close>

fun py_get :: "pyval \<Rightarrow> string \<Rightarrow> pyval \<Rightarrow> py_error + pyval" where
  "py_get (PDict kvs) k d = (case map_of kvs k of None \<Rightarrow> Inr d | Some v \<Rightarrow> Inr v)"
| "py_get _ k d = Inl (AttributeError ''get'')"

text \<open>\<^verbatim>\<open>kwargs.get(k, d)\<close> on the keyword dict of a call, which always is a dict.\<close>

definition kwargs_get :: "(string \<times> pyval) list \<Rightarrow> string \<Rightarrow> pyval \<Rightarrow> pyval" where
  "kwargs_get kwargs k d = (case map_of kwargs k of None \<Rightarrow> d | Some v \<Rightarrow> v)"

text \<open>\<^verbatim>\<open>str.lower()\<close> on code points below 256: A-Z and the Latin-1 capitals.\<close>

definition lower_char :: "char \<Rightarrow> char" where
  "lower_char c =
     (let n = (of_char c :: nat)
      in if (65 \<le> n \<and> n \<le> 90) \<or> (192 \<le> n \<and> n \<le> 222 \<and> n \<noteq> 215)
         then char_of (n + 32) else c)"

definition lower :: "string \<Rightarrow> string" where
  "lower s = map lower_char s"

section \<open>Logging\<close>

datatype level = INFO | WARNING | ERROR

text \<open>The messages the code formats, one constructor per f-string, with its arguments.\<close>

datatype message =
    Unsupported_config_format string
  | Error_loading_config py_error
  | Starting_download string
  | Download_failed string py_error
  | Processing_batch_download nat nat
  | Failed_to_download string
  | Starting_playlist_download string
  | Playlist_download_failed py_error
  | Failed_to_get_video_info py_error

type_synonym log_record = "level \<times> message"

text \<open>
  A call \<^verbatim>\<open>self.logger.<level>(msg)\<close> on an object whose attribute \<^verbatim>\<open>logger\<close> may not be
  assigned yet (\<open>None\<close>): reading the missing attribute raises \<^verbatim>\<open>AttributeError\<close>.
\<close>

definition log_call ::
  "log_record list option \<Rightarrow> level \<Rightarrow> message \<Rightarrow> py_error + log_record list option" where
  "log_call lg lvl m =
     (case lg of
        None \<Rightarrow> Inl (AttributeError ''logger'')
      | Some rs \<Rightarrow> Inr (Some (rs @ [(lvl, m)])))"

section \<open>Configuration loader\<close>

text \<open>
  What the file system answers for the configuration path: \<^verbatim>\<open>Path.exists()\<close>,
  \<^verbatim>\<open>Path.suffix\<close>, and what \<^verbatim>\<open>open\<close> and reading give (an error or the content).
\<close>

record config_file =
  path_exists :: bool
  path_suffix :: string
  file_open :: "py_error + string"

text \<open>
  The library functions the code calls and this development does not define:
  the two parsers, \<^verbatim>\<open>str(Path(d) / t)\<close>, and \<^verbatim>\<open>str(v)\<close> of a value that is no string.
\<close>

record lib =
  yaml_safe_load :: "string \<Rightarrow> py_error + pyval"
  json_load :: "string \<Rightarrow> py_error + pyval"
  path_join :: "string \<Rightarrow> string \<Rightarrow> string"
  str_of :: "pyval \<Rightarrow> string"

definition get_default_config :: pyval where
  "get_default_config = PDict
     [(''default_quality'', PStr ''720p''),
      (''default_format'', PStr ''mp4''),
      (''output_directory'', PStr ''./downloads''),
      (''max_concurrent_downloads'', PInt 3),
      (''retry_attempts'', PInt 3),
      (''timeout'', PInt 30),
      (''extract_audio'', PBool False),
      (''audio_format'', PStr ''mp3''),
      (''download_subtitles'', PBool False),
      (''subtitle_languages'', PList [PStr ''en'']),
      (''filename_template'', PStr ''%(title)s.%(ext)s''),
      (''rate_limit'', PNone)]"

text \<open>
  The \<^verbatim>\<open>try\<close> block of \<^verbatim>\<open>_load_config\<close>: its result or the exception it raises, and the
  logger after it.
\<close>

definition load_config_try ::
  "lib \<Rightarrow> log_record list option \<Rightarrow> config_file
     \<Rightarrow> (py_error + pyval) \<times> log_record list option" where
  "load_config_try L lg f =
     (case file_open f of
        Inl e \<Rightarrow> (Inl e, lg)
      | Inr content \<Rightarrow>
          if lower (path_suffix f) = ''.yaml'' then (yaml_safe_load L content, lg)
          else if lower (path_suffix f) = ''.json'' then (json_load L content, lg)
          else (case log_call lg WARNING (Unsupported_config_format (path_suffix f)) of
                  Inl e \<Rightarrow> (Inl e, lg)
                | Inr lg' \<Rightarrow> (Inr get_default_config, lg')))"

text \<open>\<^verbatim>\<open>_load_config\<close>: the handler logs through \<^verbatim>\<open>self.logger\<close> before it returns.\<close>

definition load_config ::
  "lib \<Rightarrow> log_record list option \<Rightarrow> config_file
     \<Rightarrow> (py_error + pyval) \<times> log_record list option" where
  "load_config L lg f =
     (if \<not> path_exists f then (Inr get_default_config, lg)
      else
        (case load_config_try L lg f of
           (Inr v, lg1) \<Rightarrow> (Inr v, lg1)
         | (Inl e, lg1) \<Rightarrow>
             (case log_call lg1 ERROR (Error_loading_config e) of
                Inl e' \<Rightarrow> (Inl e', lg1)
              | Inr lg2 \<Rightarrow> (Inr get_default_config, lg2))))"

section \<open>The downloader object and the store\<close>

record stats =
  total_downloads :: int
  successful_downloads :: int
  failed_downloads :: int
  total_size :: int

definition zero_stats :: stats where
  "zero_stats = \<lparr>total_downloads = 0, successful_downloads = 0,
                  failed_downloads = 0, total_size = 0\<rparr>"

text \<open>
  The attributes of a constructed \<^verbatim>\<open>YouTubeDownloader\<close> and the store of statistics
  dicts. \<open>download_stats\<close> is a reference: the address of the dict the object holds.
  \<open>next_addr\<close> is the first address no dict has been allocated at.
\<close>

record state =
  config :: pyval
  logger :: "log_record list"
  download_stats :: nat
  heap :: "nat \<Rightarrow> stats"
  next_addr :: nat

definition stats_of :: "state \<Rightarrow> stats" where
  "stats_of s = heap s (download_stats s)"

text \<open>
  \<^verbatim>\<open>__init__\<close>: the configuration is loaded first, when \<^verbatim>\<open>self.logger\<close> is not assigned
  yet; then the logger is set up and the statistics dict is allocated.
\<close>

definition init :: "lib \<Rightarrow> config_file \<Rightarrow> py_error + state" where
  "init L f =
     (case load_config L None f of
        (Inl e, _) \<Rightarrow> Inl e
      | (Inr cfg, _) \<Rightarrow>
          Inr \<lparr>config = cfg, logger = [], download_stats = 0,
               heap = (\<lambda>_. zero_stats), next_addr = 1\<rparr>)"

section \<open>Option resolver\<close>

text \<open>Sequencing of computations that may raise: the first exception ends the rest.\<close>

definition and_then :: "py_error + 'a \<Rightarrow> ('a \<Rightarrow> py_error + 'b) \<Rightarrow> py_error + 'b" where
  "and_then m k = (case m of Inl e \<Rightarrow> Inl e | Inr v \<Rightarrow> k v)"

text \<open>
  \<^verbatim>\<open>kwargs.get(k, self.config[c])\<close>: Python evaluates the default argument before the
  call, so the configuration is subscripted whether or not the override is present.
\<close>

definition resolve ::
  "pyval \<Rightarrow> (string \<times> pyval) list \<Rightarrow> string \<Rightarrow> string \<Rightarrow> py_error + pyval" where
  "resolve cfg kwargs k c = and_then (subscript cfg c) (\<lambda>d. Inr (kwargs_get kwargs k d))"

text \<open>A value inside an f-string: a string is inserted as it is, another value by \<^verbatim>\<open>str\<close>.\<close>

definition fmt :: "lib \<Rightarrow> pyval \<Rightarrow> string" where
  "fmt L v = (case v of PStr s \<Rightarrow> s | _ \<Rightarrow> str_of L v)"

text \<open>\<^verbatim>\<open>quality.replace('p', '')\<close>: every \<^verbatim>\<open>p\<close> is removed; only a string has the method.\<close>

definition replace_p :: "pyval \<Rightarrow> py_error + string" where
  "replace_p q =
     (case q of PStr s \<Rightarrow> Inr (filter (\<lambda>c. c \<noteq> CHR ''p'') s)
      | _ \<Rightarrow> Inl (AttributeError ''replace''))"

definition get_format_selector ::
  "lib \<Rightarrow> pyval \<Rightarrow> (string \<times> pyval) list \<Rightarrow> py_error + string" where
  "get_format_selector L cfg kwargs =
     and_then (resolve cfg kwargs ''quality'' ''default_quality'') (\<lambda>quality.
     and_then (resolve cfg kwargs ''format'' ''default_format'') (\<lambda>format_type.
     and_then (resolve cfg kwargs ''extract_audio'' ''extract_audio'') (\<lambda>audio.
       if truthy audio then Inr ''bestaudio/best''
       else if quality = PStr ''best'' then
         Inr (''best[ext='' @ fmt L format_type @ '']/best'')
       else if quality = PStr ''worst'' then
         Inr (''worst[ext='' @ fmt L format_type @ '']/worst'')
       else
         and_then (replace_p quality) (\<lambda>height.
           Inr (''best[height<='' @ height @ ''][ext='' @ fmt L format_type
                @ '']/best[height<='' @ height @ '']/best'')))))"

text \<open>
  \<^verbatim>\<open>_create_output_directory\<close>: \<^verbatim>\<open>Path(path)\<close> takes a string; \<open>mk\<close> is what
  \<^verbatim>\<open>mkdir(parents=True, exist_ok=True)\<close> answers for the path, an error or nothing.
\<close>

definition create_output_directory ::
  "(string \<Rightarrow> py_error option) \<Rightarrow> pyval \<Rightarrow> py_error + string" where
  "create_output_directory mk path =
     (case path of
        PStr p \<Rightarrow> (case mk p of Some e \<Rightarrow> Inl e | None \<Rightarrow> Inr p)
      | _ \<Rightarrow> Inl TypeError)"

text \<open>\<^verbatim>\<open>str(output_dir / template)\<close>: the template has to be a string.\<close>

definition outtmpl :: "lib \<Rightarrow> string \<Rightarrow> pyval \<Rightarrow> py_error + pyval" where
  "outtmpl L output_dir template =
     (case template of
        PStr t \<Rightarrow> Inr (PStr (path_join L output_dir t))
      | _ \<Rightarrow> Inl TypeError)"

definition get_ydl_opts ::
  "lib \<Rightarrow> pyval \<Rightarrow> (string \<times> pyval) list \<Rightarrow> (string \<Rightarrow> py_error option)
     \<Rightarrow> py_error + (string \<times> pyval) list" where
  "get_ydl_opts L cfg kwargs mk =
     and_then (resolve cfg kwargs ''output_directory'' ''output_directory'') (\<lambda>dir.
     and_then (create_output_directory mk dir) (\<lambda>output_dir.
     and_then (get_format_selector L cfg kwargs) (\<lambda>selector.
     and_then (resolve cfg kwargs ''filename_template'' ''filename_template'') (\<lambda>template.
     and_then (outtmpl L output_dir template) (\<lambda>out.
     and_then (resolve cfg kwargs ''download_subtitles'' ''download_subtitles'') (\<lambda>subs.
     and_then (resolve cfg kwargs ''download_subtitles'' ''download_subtitles'') (\<lambda>autosubs.
     and_then (resolve cfg kwargs ''subtitle_languages'' ''subtitle_languages'') (\<lambda>langs.
     and_then (resolve cfg kwargs ''extract_audio'' ''extract_audio'') (\<lambda>audio.
     and_then (resolve cfg kwargs ''audio_format'' ''audio_format'') (\<lambda>audio_format.
     and_then (resolve cfg kwargs ''retry_attempts'' ''retry_attempts'') (\<lambda>retries.
     and_then (resolve cfg kwargs ''timeout'' ''timeout'') (\<lambda>timeout.
       (let opts =
          [(''format'', PStr selector),
           (''outtmpl'', out),
           (''writesubtitles'', subs),
           (''writeautomaticsub'', autosubs),
           (''subtitleslangs'', langs),
           (''ignoreerrors'', PBool True),
           (''no_warnings'', PBool False),
           (''extractaudio'', audio),
           (''audioformat'', audio_format),
           (''retries'', retries),
           (''socket_timeout'', timeout)]
        in and_then (py_get cfg ''rate_limit'' PNone) (\<lambda>rate.
             if truthy rate
             then and_then (subscript cfg ''rate_limit'')
                    (\<lambda>r. Inr (AList.update ''ratelimit'' r opts))
             else Inr opts))))))))))))))"

section \<open>Progress reporter\<close>

definition log_to :: "level \<Rightarrow> message \<Rightarrow> state \<Rightarrow> state" where
  "log_to lvl m s = s\<lparr>logger := logger s @ [(lvl, m)]\<rparr>"

text \<open>An update in place of the statistics dict the object refers to.\<close>

definition update_stats :: "(stats \<Rightarrow> stats) \<Rightarrow> state \<Rightarrow> state" where
  "update_stats f s =
     s\<lparr>heap := (heap s)(download_stats s := f (heap s (download_stats s)))\<rparr>"

text \<open>The integer a value counts as in arithmetic: an int, or a bool as 0 or 1.\<close>

fun numeric :: "pyval \<Rightarrow> int option" where
  "numeric (PInt n) = Some n"
| "numeric (PBool b) = Some (if b then 1 else 0)"
| "numeric _ = None"

text \<open>
  Whether \<^verbatim>\<open>a / b\<close> raises. The quotient of two ints is the nearest float; a quotient
  that rounds beyond the largest float, one of size \<open>2 ^ 1024 - 2 ^ 970\<close> or more, raises
  \<^verbatim>\<open>OverflowError\<close>.
\<close>

definition true_div_error :: "pyval \<Rightarrow> pyval \<Rightarrow> py_error option" where
  "true_div_error a b =
     (case (numeric a, numeric b) of
        (Some x, Some y) \<Rightarrow>
          if y = 0 then Some ZeroDivisionError
          else if (2 ^ 1024 - 2 ^ 970) * \<bar>y\<bar> \<le> \<bar>x\<bar> then Some OverflowError
          else None
      | _ \<Rightarrow> Some TypeError)"

text \<open>
  The \<^verbatim>\<open>downloading\<close> branch of \<^verbatim>\<open>_progress_hook\<close> only prints; standard output is not
  part of the state, so what remains is whether the branch raises.
\<close>

definition show_progress :: "(string \<times> pyval) list \<Rightarrow> py_error option" where
  "show_progress d =
     (case map_of d ''total_bytes'' of
        Some total_bytes \<Rightarrow>
          (case true_div_error (kwargs_get d ''downloaded_bytes'' (PInt 0)) total_bytes of
             Some e \<Rightarrow> Some e
           | None \<Rightarrow>
               (let speed = kwargs_get d ''speed'' PNone
                in if speed = PNone then None
                   else (case numeric speed of
                           None \<Rightarrow> Some TypeError
                         | Some v \<Rightarrow>
                             if 0 < v then true_div_error speed (PInt 1024) else None)))
      | None \<Rightarrow> true_div_error (kwargs_get d ''downloaded_bytes'' (PInt 0)) (PInt 1024))"

text \<open>
  \<^verbatim>\<open>_progress_hook\<close> on the dict \<open>d\<close> the engine passes: the exception it raises, if any,
  and the state after it. The success counter is incremented before the size is added.
\<close>

definition progress_hook :: "(string \<times> pyval) list \<Rightarrow> state \<Rightarrow> py_error option \<times> state" where
  "progress_hook d s =
     (case map_of d ''status'' of
        None \<Rightarrow> (Some (KeyError ''status''), s)
      | Some status \<Rightarrow>
          if status = PStr ''downloading'' then (show_progress d, s)
          else if status = PStr ''finished'' then
            (case map_of d ''filename'' of
               None \<Rightarrow> (Some (KeyError ''filename''), s)
             | Some _ \<Rightarrow>
                 (let s1 = update_stats
                       (\<lambda>st. st\<lparr>successful_downloads := successful_downloads st + 1\<rparr>) s
                  in case map_of d ''total_bytes'' of
                       None \<Rightarrow> (None, s1)
                     | Some v \<Rightarrow>
                         (case numeric v of
                            None \<Rightarrow> (Some TypeError, s1)
                          | Some n \<Rightarrow>
                              (None, update_stats
                                 (\<lambda>st. st\<lparr>total_size := total_size st + n\<rparr>) s1))))
          else (None, s))"

section \<open>Download orchestrator\<close>

text \<open>
  What the environment does during one download call: what \<^verbatim>\<open>mkdir\<close> answers, the
  progress dicts the engine hands to the hook, in order, and how the engine call ends
  (an exception or a normal return). What the engine does when the hook raises is its
  own affair and is part of this record.
\<close>

record call_env =
  mkdir :: "string \<Rightarrow> py_error option"
  hook_events :: "(string \<times> pyval) list list"
  engine_result :: "py_error option"

fun run_hooks :: "(string \<times> pyval) list list \<Rightarrow> state \<Rightarrow> state" where
  "run_hooks [] s = s"
| "run_hooks (d # ds) s = run_hooks ds (snd (progress_hook d s))"

text \<open>\<^verbatim>\<open>with yt_dlp.YoutubeDL(opts) as ydl: ydl.download([url])\<close>.\<close>

definition run_engine :: "call_env \<Rightarrow> state \<Rightarrow> (py_error + unit) \<times> state" where
  "run_engine env s =
     (let s' = run_hooks (hook_events env) s
      in case engine_result env of Some e \<Rightarrow> (Inl e, s') | None \<Rightarrow> (Inr (), s'))"

text \<open>
  The \<^verbatim>\<open>try\<close> block of \<^verbatim>\<open>download_single\<close>. The resolved options, with the progress hook
  attached, go to the engine; what the engine does with them is \<open>env\<close>.
\<close>

definition download_single_try ::
  "lib \<Rightarrow> string \<Rightarrow> (string \<times> pyval) list \<Rightarrow> call_env \<Rightarrow> state
     \<Rightarrow> (py_error + bool) \<times> state" where
  "download_single_try L url kwargs env s =
     (let s1 = log_to INFO (Starting_download url) s;
          s2 = update_stats (\<lambda>st. st\<lparr>total_downloads := total_downloads st + 1\<rparr>) s1
      in case get_ydl_opts L (config s2) kwargs (mkdir env) of
           Inl e \<Rightarrow> (Inl e, s2)
         | Inr opts \<Rightarrow>
             (case run_engine env s2 of
                (Inl e, s3) \<Rightarrow> (Inl e, s3)
              | (Inr _, s3) \<Rightarrow> (Inr True, s3)))"

definition download_single ::
  "lib \<Rightarrow> string \<Rightarrow> (string \<times> pyval) list \<Rightarrow> call_env \<Rightarrow> state
     \<Rightarrow> (py_error + bool) \<times> state" where
  "download_single L url kwargs env s =
     (case download_single_try L url kwargs env s of
        (Inr b, s') \<Rightarrow> (Inr b, s')
      | (Inl e, s') \<Rightarrow>
          (Inr False,
           update_stats (\<lambda>st. st\<lparr>failed_downloads := failed_downloads st + 1\<rparr>)
             (log_to ERROR (Download_failed url e) s')))"

text \<open>
  The loop of \<^verbatim>\<open>download_batch\<close> over the URLs, each with the environment of its call.
  \<open>results\<close> is the dict built so far, in insertion order; \<open>n\<close> is \<^verbatim>\<open>len(urls)\<close>.
\<close>

fun batch_loop ::
  "lib \<Rightarrow> (string \<times> pyval) list \<Rightarrow> nat \<Rightarrow> (string \<times> call_env) list
     \<Rightarrow> (string \<times> bool) list \<Rightarrow> state \<Rightarrow> (py_error + (string \<times> bool) list) \<times> state" where
  "batch_loop L kwargs n [] results s = (Inr results, s)"
| "batch_loop L kwargs n ((url, env) # rest) results s =
     (let s1 = log_to INFO (Processing_batch_download (length results + 1) n) s
      in case download_single L url kwargs env s1 of
           (Inl e, s2) \<Rightarrow> (Inl e, s2)
         | (Inr ok, s2) \<Rightarrow>
             (let results' = AList.update url ok results;
                  s3 = (if \<not> ok then log_to WARNING (Failed_to_download url) s2 else s2)
              in batch_loop L kwargs n rest results' s3))"

definition download_batch ::
  "lib \<Rightarrow> (string \<times> call_env) list \<Rightarrow> (string \<times> pyval) list \<Rightarrow> state
     \<Rightarrow> (py_error + (string \<times> bool) list) \<times> state" where
  "download_batch L calls kwargs s = batch_loop L kwargs (length calls) calls [] s"

definition download_playlist_try ::
  "lib \<Rightarrow> string \<Rightarrow> (string \<times> pyval) list \<Rightarrow> call_env \<Rightarrow> state
     \<Rightarrow> (py_error + bool) \<times> state" where
  "download_playlist_try L url kwargs env s =
     (let s1 = log_to INFO (Starting_playlist_download url) s
      in case get_ydl_opts L (config s1) kwargs (mkdir env) of
           Inl e \<Rightarrow> (Inl e, s1)
         | Inr opts \<Rightarrow>
             (case run_engine env s1 of
                (Inl e, s2) \<Rightarrow> (Inl e, s2)
              | (Inr _, s2) \<Rightarrow> (Inr True, s2)))"

definition download_playlist ::
  "lib \<Rightarrow> string \<Rightarrow> (string \<times> pyval) list \<Rightarrow> call_env \<Rightarrow> state
     \<Rightarrow> (py_error + bool) \<times> state" where
  "download_playlist L url kwargs env s =
     (case download_playlist_try L url kwargs env s of
        (Inr b, s') \<Rightarrow> (Inr b, s')
      | (Inl e, s') \<Rightarrow> (Inr False, log_to ERROR (Playlist_download_failed e) s'))"

section \<open>Video information\<close>

text \<open>\<^verbatim>\<open>v[:200]\<close>: strings and lists can be sliced.\<close>

fun slice_200 :: "pyval \<Rightarrow> py_error + pyval" where
  "slice_200 (PStr s) = Inr (PStr (take 200 s))"
| "slice_200 (PList xs) = Inr (PList (take 200 xs))"
| "slice_200 _ = Inl TypeError"

text \<open>\<^verbatim>\<open>v + '...'\<close>: only a string can be extended by a string.\<close>

fun add_str :: "pyval \<Rightarrow> string \<Rightarrow> py_error + pyval" where
  "add_str (PStr s) t = Inr (PStr (s @ t))"
| "add_str _ t = Inl TypeError"

text \<open>
  The elements a \<^verbatim>\<open>for\<close> loop visits: those of a list, the characters of a string, the
  keys of a dict.
\<close>

fun py_iter :: "pyval \<Rightarrow> py_error + pyval list" where
  "py_iter (PList xs) = Inr xs"
| "py_iter (PStr s) = Inr (map (\<lambda>c. PStr [c]) s)"
| "py_iter (PDict kvs) = Inr (map (\<lambda>kv. PStr (fst kv)) kvs)"
| "py_iter _ = Inl TypeError"

text \<open>A list comprehension whose element expression may raise.\<close>

fun map_raising :: "('a \<Rightarrow> py_error + 'b) \<Rightarrow> 'a list \<Rightarrow> py_error + 'b list" where
  "map_raising g [] = Inr []"
| "map_raising g (x # xs) =
     and_then (g x) (\<lambda>y. and_then (map_raising g xs) (\<lambda>ys. Inr (y # ys)))"

definition format_descriptor :: "pyval \<Rightarrow> py_error + pyval" where
  "format_descriptor f =
     and_then (subscript f ''format_id'') (\<lambda>format_id.
     and_then (subscript f ''ext'') (\<lambda>ext.
     and_then (py_get f ''height'' PNone) (\<lambda>height.
       Inr (PDict [(''format_id'', format_id), (''ext'', ext), (''height'', height)]))))"

definition description_field :: "pyval \<Rightarrow> py_error + pyval" where
  "description_field info =
     and_then (py_get info ''description'' PNone) (\<lambda>present.
       if truthy present then
         and_then (py_get info ''description'' (PStr [])) (\<lambda>description.
         and_then (slice_200 description) (\<lambda>cut. add_str cut ''...''))
       else Inr PNone)"

text \<open>The list comprehension over \<^verbatim>\<open>info.get('formats', [])\<close>.\<close>

definition format_descriptors :: "pyval \<Rightarrow> py_error + pyval list" where
  "format_descriptors info =
     and_then (py_get info ''formats'' (PList [])) (\<lambda>formats.
     and_then (py_iter formats) (\<lambda>fs. map_raising format_descriptor fs))"

text \<open>The dict that \<^verbatim>\<open>get_video_info\<close> builds from the engine's \<open>info\<close>.\<close>

definition snapshot :: "pyval \<Rightarrow> py_error + pyval" where
  "snapshot info =
     and_then (py_get info ''title'' PNone) (\<lambda>title.
     and_then (py_get info ''uploader'' PNone) (\<lambda>uploader.
     and_then (py_get info ''duration'' PNone) (\<lambda>duration.
     and_then (py_get info ''view_count'' PNone) (\<lambda>view_count.
     and_then (py_get info ''upload_date'' PNone) (\<lambda>upload_date.
     and_then (description_field info) (\<lambda>description.
     and_then (format_descriptors info) (\<lambda>descriptors.
       Inr (PDict
         [(''title'', title),
          (''uploader'', uploader),
          (''duration'', duration),
          (''view_count'', view_count),
          (''upload_date'', upload_date),
          (''description'', description),
          (''formats'', PList descriptors)]))))))))"

text \<open>
  \<^verbatim>\<open>get_video_info\<close>: \<open>extracted\<close> is what creating the engine and \<^verbatim>\<open>extract_info\<close> give,
  an exception or the info value. The result \<open>None\<close> is Python's \<^verbatim>\<open>None\<close>.
\<close>

definition get_video_info ::
  "py_error + pyval \<Rightarrow> state \<Rightarrow> (py_error + pyval option) \<times> state" where
  "get_video_info extracted s =
     (case and_then extracted snapshot of
        Inr snap \<Rightarrow> (Inr (Some snap), s)
      | Inl e \<Rightarrow> (Inr None, log_to ERROR (Failed_to_get_video_info e) s))"

section \<open>Statistics\<close>

text \<open>
  \<^verbatim>\<open>get_download_stats\<close>: \<^verbatim>\<open>dict.copy()\<close> allocates a new dict with the same entries and
  returns its address.
\<close>

definition get_download_stats :: "state \<Rightarrow> nat \<times> state" where
  "get_download_stats s =
     (next_addr s,
      s\<lparr>heap := (heap s)(next_addr s := heap s (download_stats s)),
        next_addr := Suc (next_addr s)\<rparr>)"

text \<open>\<^verbatim>\<open>reset_stats\<close> binds the attribute to a newly allocated dict of zeros.\<close>

definition reset_stats :: "state \<Rightarrow> state" where
  "reset_stats s =
     s\<lparr>heap := (heap s)(next_addr s := zero_stats),
       download_stats := next_addr s,
       next_addr := Suc (next_addr s)\<rparr>"


text \<open>The operations of the downloader, with what the environment does during each.\<close>

datatype operation =
    Download_single string "(string \<times> pyval) list" call_env
  | Download_batch "(string \<times> call_env) list" "(string \<times> pyval) list"
  | Download_playlist string "(string \<times> pyval) list" call_env
  | Get_video_info "py_error + pyval"
  | Get_download_stats
  | Progress_hook "(string \<times> pyval) list"
  | Reset_stats

fun step :: "lib \<Rightarrow> operation \<Rightarrow> state \<Rightarrow> state" where
  "step L (Download_single url kwargs env) s = snd (download_single L url kwargs env s)"
| "step L (Download_batch calls kwargs) s = snd (download_batch L calls kwargs s)"
| "step L (Download_playlist url kwargs env) s = snd (download_playlist L url kwargs env s)"
| "step L (Get_video_info extracted) s = snd (get_video_info extracted s)"
| "step L Get_download_stats s = snd (get_download_stats s)"
| "step L (Progress_hook d) s = snd (progress_hook d s)"
| "step L Reset_stats s = reset_stats s"

text \<open>The byte total a progress dict reports, when it is a number, is not negative.\<close>

definition size_nonneg :: "(string \<times> pyval) list \<Rightarrow> bool" where
  "size_nonneg d =
     (case map_of d ''total_bytes'' of
        None \<Rightarrow> True
      | Some v \<Rightarrow> (case numeric v of None \<Rightarrow> True | Some n \<Rightarrow> 0 \<le> n))"

fun sizes_nonneg :: "operation \<Rightarrow> bool" where
  "sizes_nonneg (Download_single url kwargs env) = list_all size_nonneg (hook_events env)"
| "sizes_nonneg (Download_batch calls kwargs) =
     list_all (\<lambda>c. list_all size_nonneg (hook_events (snd c))) calls"
| "sizes_nonneg (Download_playlist url kwargs env) = list_all size_nonneg (hook_events env)"
| "sizes_nonneg (Progress_hook d) = size_nonneg d"
| "sizes_nonneg _ = True"

definition stats_le :: "stats \<Rightarrow> stats \<Rightarrow> bool" where
  "stats_le a b \<longleftrightarrow>
     total_downloads a \<le> total_downloads b \<and>
     successful_downloads a \<le> successful_downloads b \<and>
     failed_downloads a \<le> failed_downloads b \<and>
     total_size a \<le> total_size b"

definition counts_le :: "stats \<Rightarrow> stats \<Rightarrow> bool" where
  "counts_le a b \<longleftrightarrow>
     total_downloads a \<le> total_downloads b \<and>
     successful_downloads a \<le> successful_downloads b \<and>
     failed_downloads a \<le> failed_downloads b"

section \<open>Batch file loading\<close>

text \<open>
  Iterating over a text file yields its lines, each with its newline; the last line
  may lack one. The content is the text as read, every line end already translated
  to a newline. \<open>acc\<close> is the line read so far.
\<close>

fun file_lines :: "string \<Rightarrow> string \<Rightarrow> string list" where
  "file_lines acc [] = (if acc = [] then [] else [acc])"
| "file_lines acc (c # cs) =
     (if c = CHR 0x0A then (acc @ [c]) # file_lines [] cs else file_lines (acc @ [c]) cs)"

text \<open>The code points below 256 that \<^verbatim>\<open>str.strip()\<close> removes.\<close>

definition is_space :: "char \<Rightarrow> bool" where
  "is_space c =
     (let n = (of_char c :: nat)
      in (9 \<le> n \<and> n \<le> 13) \<or> (28 \<le> n \<and> n \<le> 32) \<or> n = 133 \<or> n = 160)"

definition strip :: "string \<Rightarrow> string" where
  "strip s = rev (dropWhile is_space (rev (dropWhile is_space s)))"

definition startswith :: "string \<Rightarrow> string \<Rightarrow> bool" where
  "startswith s p = (take (length p) s = p)"

text \<open>The list comprehension of \<^verbatim>\<open>load_batch_urls\<close>.\<close>

fun batch_urls :: "string list \<Rightarrow> string list" where
  "batch_urls [] = []"
| "batch_urls (line # rest) =
     (if strip line \<noteq> [] \<and> \<not> startswith line ''#''
      then strip line # batch_urls rest else batch_urls rest)"

text \<open>
  \<^verbatim>\<open>load_batch_urls\<close>: \<open>opened\<close> is what opening and reading the file give. Both handlers
  end the process with \<^verbatim>\<open>sys.exit(1)\<close>, which \<open>Inl 1\<close> stands for.
\<close>

definition load_batch_urls :: "py_error + string \<Rightarrow> nat + string list" where
  "load_batch_urls opened =
     (case opened of
        Inl e \<Rightarrow> Inl 1
      | Inr content \<Rightarrow> Inr (batch_urls (file_lines [] content)))"

text \<open>
  The sentence of the specification on batch files as it is written: the lines, without
  the blank ones and those beginning with \<^verbatim>\<open>#\<close>.
\<close>

definition claimed_batch_urls :: "string list \<Rightarrow> string list" where
  "claimed_batch_urls ls =
     filter (\<lambda>line. \<not> list_all is_space line \<and> take 1 line \<noteq> ''#'') ls"

section \<open>Observations used in the properties\<close>

text \<open>The URLs whose download the log records as started, in the order of the log.\<close>

fun started_urls :: "log_record list \<Rightarrow> string list" where
  "started_urls [] = []"
| "started_urls ((lvl, Starting_download url) # rs) = url # started_urls rs"
| "started_urls (r # rs) = started_urls rs"

text \<open>The option resolution of a call succeeds.\<close>

definition resolves :: "lib \<Rightarrow> pyval \<Rightarrow> (string \<times> pyval) list \<Rightarrow> call_env \<Rightarrow> bool" where
  "resolves L cfg kwargs env =
     (case get_ydl_opts L cfg kwargs (mkdir env) of Inl e \<Rightarrow> False | Inr opts \<Rightarrow> True)"

text \<open>
  The \<^verbatim>\<open>try\<close> block of a single download ends without an exception: the options
  resolve and the engine call returns.
\<close>

definition call_returns :: "lib \<Rightarrow> pyval \<Rightarrow> (string \<times> pyval) list \<Rightarrow> call_env \<Rightarrow> bool" where
  "call_returns L cfg kwargs env \<longleftrightarrow> resolves L cfg kwargs env \<and> engine_result env = None"

text \<open>A call of a batch raised, in the option resolution or in the engine.\<close>

definition call_raised ::
  "lib \<Rightarrow> pyval \<Rightarrow> (string \<times> pyval) list \<Rightarrow> string \<times> call_env \<Rightarrow> bool" where
  "call_raised L cfg kwargs c \<longleftrightarrow> \<not> call_returns L cfg kwargs (snd c)"

text \<open>The entry a call of a batch gives: its URL and whether its \<^verbatim>\<open>try\<close> block returned.\<close>

definition outcome ::
  "lib \<Rightarrow> pyval \<Rightarrow> (string \<times> pyval) list \<Rightarrow> string \<times> call_env \<Rightarrow> string \<times> bool" where
  "outcome L cfg kwargs c = (fst c, call_returns L cfg kwargs (snd c))"

section \<open>Example inputs\<close>

definition example_lib :: lib where
  "example_lib =
     \<lparr>yaml_safe_load = (\<lambda>c. Inl (ParseError c)),
      json_load = (\<lambda>c. Inl (ParseError c)),
      path_join = (\<lambda>d t. d @ ''/'' @ t),
      str_of = (\<lambda>v. ''?'')\<rparr>"

definition example_state :: state where
  "example_state =
     \<lparr>config = get_default_config, logger = [], download_stats = 0,
      heap = (\<lambda>_. zero_stats), next_addr = 1\<rparr>"

text \<open>The default record without its \<^verbatim>\<open>default_quality\<close> entry, and a parser giving it.\<close>

definition partial_config :: pyval where
  "partial_config = PDict
     [(''default_format'', PStr ''mp4''),
      (''output_directory'', PStr ''./downloads''),
      (''max_concurrent_downloads'', PInt 3),
      (''retry_attempts'', PInt 3),
      (''timeout'', PInt 30),
      (''extract_audio'', PBool False),
      (''audio_format'', PStr ''mp3''),
      (''download_subtitles'', PBool False),
      (''subtitle_languages'', PList [PStr ''en'']),
      (''filename_template'', PStr ''%(title)s.%(ext)s''),
      (''rate_limit'', PNone)]"

definition partial_lib :: lib where
  "partial_lib = example_lib\<lparr>yaml_safe_load := (\<lambda>c. Inr partial_config)\<rparr>"

definition partial_file :: config_file where
  "partial_file = \<lparr>path_exists = True, path_suffix = ''.yaml'', file_open = Inr []\<rparr>"

definition example_info :: pyval where
  "example_info = PDict
     [(''title'', PStr ''A title''),
      (''description'', PStr ''A description''),
      (''formats'',
       PList [PDict [(''format_id'', PStr ''18''), (''ext'', PStr ''mp4''),
                     (''height'', PInt 360)]])]"

text \<open>A progress event of a finished transfer of known size.\<close>

definition finished_event :: "(string \<times> pyval) list" where
  "finished_event = [(''status'', PStr ''finished''), (''filename'', PStr ''a.mp4''),
     (''total_bytes'', PInt 1000)]"

text \<open>A progress event of a finished transfer that reports a negative size.\<close>

definition negative_event :: "(string \<times> pyval) list" where
  "negative_event = [(''status'', PStr ''finished''), (''filename'', PStr ''a.mp4''),
     (''total_bytes'', PInt (- 5))]"

text \<open>A call during which the output directory cannot be created.\<close>

definition mkdir_failing_env :: call_env where
  "mkdir_failing_env =
     \<lparr>mkdir = (\<lambda>_. Some (OSError ''denied'')), hook_events = [], engine_result = None\<rparr>"

text \<open>
  A batch file of six lines: a URL, a comment, an indented comment, an empty line, a
  URL between spaces, and a last URL with no newline after it.
\<close>

definition example_batch_file :: string where
  "example_batch_file =
     ''a'' @ [CHR 0x0A] @ ''# c'' @ [CHR 0x0A] @ '' #d'' @ [CHR 0x0A] @ [CHR 0x0A]
       @ ''  b  '' @ [CHR 0x0A] @ ''e''"

definition ok_env :: call_env where
  "ok_env = \<lparr>mkdir = (\<lambda>_. None), hook_events = [], engine_result = None\<rparr>"

definition failing_env :: call_env where
  "failing_env =
     \<lparr>mkdir = (\<lambda>_. None), hook_events = [],
      engine_result = Some (DownloadError ''unavailable'')\<rparr>"

section \<open>Properties of the configuration loader\<close>

lemma load_config_missing:
  "\<not> path_exists f \<Longrightarrow> load_config L lg f = (Inr get_default_config, lg)"
  by (simp add: load_config_def)

lemma load_config_with_logger_unsupported:
  assumes "path_exists f" "file_open f = Inr c"
    and "lower (path_suffix f) \<noteq> ''.yaml''" "lower (path_suffix f) \<noteq> ''.json''"
  shows "fst (load_config L (Some rs) f) = Inr get_default_config"
  using assms by (simp add: load_config_def load_config_try_def log_call_def)

lemma load_config_with_logger_parse_error:
  assumes "path_exists f" "file_open f = Inr c"
    and "lower (path_suffix f) = ''.yaml''" "yaml_safe_load L c = Inl e"
  shows "fst (load_config L (Some rs) f) = Inr get_default_config"
  using assms by (simp add: load_config_def load_config_try_def log_call_def)

lemma init_missing:
  "\<not> path_exists f \<Longrightarrow> \<exists>s. init L f = Inr s \<and> config s = get_default_config"
  by (simp add: init_def load_config_def)

lemma init_unsupported_raises:
  assumes "path_exists f"
    and "lower (path_suffix f) \<noteq> ''.yaml''" "lower (path_suffix f) \<noteq> ''.json''"
  shows "init L f = Inl (AttributeError ''logger'')"
  using assms
  by (cases "file_open f")
     (simp_all add: init_def load_config_def load_config_try_def log_call_def)

lemma init_parse_error_raises:
  assumes "path_exists f" "file_open f = Inr c"
    and "lower (path_suffix f) = ''.yaml''" "yaml_safe_load L c = Inl e"
  shows "init L f = Inl (AttributeError ''logger'')"
  using assms
  by (simp add: init_def load_config_def load_config_try_def log_call_def)

text \<open>
  C1 (the code departs from it). Claim: for every configuration path that is missing,
  fails to parse or has an unrecognised extension, the loader returns the built-in
  default record and never raises. In the code, the constructor loads the configuration
  before it assigns \<^verbatim>\<open>self.logger\<close>, and both the unsupported-extension branch and the
  exception handler log through \<^verbatim>\<open>self.logger\<close>. Constructing the downloader on an
  existing file \<^verbatim>\<open>config.txt\<close> therefore raises \<^verbatim>\<open>AttributeError\<close>, whatever the parsers
  and the content are.
\<close>

theorem C1_init_unsupported_extension_raises:
  "init L \<lparr>path_exists = True, path_suffix = ''.txt'', file_open = Inr c\<rparr>
     = Inl (AttributeError ''logger'')"
  by (simp add: init_def load_config_def load_config_try_def log_call_def
        lower_def lower_char_def)

section \<open>Properties of the option resolver\<close>

lemma resolve_override:
  "subscript cfg c = Inr d \<Longrightarrow> map_of kwargs k = Some v \<Longrightarrow> resolve cfg kwargs k c = Inr v"
  by (simp add: resolve_def and_then_def kwargs_get_def)

lemma resolve_fallback:
  "subscript cfg c = Inr d \<Longrightarrow> map_of kwargs k = None \<Longrightarrow> resolve cfg kwargs k c = Inr d"
  by (simp add: resolve_def and_then_def kwargs_get_def)

lemma resolve_missing:
  "subscript cfg c = Inl e \<Longrightarrow> resolve cfg kwargs k c = Inl e"
  by (simp add: resolve_def and_then_def)

text \<open>
  The overrides of the other recognised keys reach the engine options: an override
  wins, and a key with no override falls back to the configuration.
\<close>

lemma get_ydl_opts_default_retries_override:
  "map_of kwargs ''output_directory'' = None \<Longrightarrow> map_of kwargs ''quality'' = None \<Longrightarrow>
   map_of kwargs ''format'' = None \<Longrightarrow> map_of kwargs ''extract_audio'' = None \<Longrightarrow>
   map_of kwargs ''filename_template'' = None \<Longrightarrow>
   map_of kwargs ''retry_attempts'' = Some v \<Longrightarrow>
   \<exists>opts. get_ydl_opts L get_default_config kwargs (\<lambda>_. None) = Inr opts \<and>
          map_of opts ''retries'' = Some v"
  by (simp add: get_ydl_opts_def get_format_selector_def resolve_def and_then_def
        get_default_config_def kwargs_get_def create_output_directory_def outtmpl_def
        replace_p_def fmt_def split: option.split)

text \<open>
  C2 (the code departs from it). Claim: every override key present in the per-call
  overrides takes precedence over the configuration, including \<^verbatim>\<open>rate_limit\<close>: the engine
  options carry the override's rate limit when one is supplied. In the code,
  \<^verbatim>\<open>_get_ydl_opts\<close> reads the rate limit from the configuration only. With the default
  configuration and the override \<^verbatim>\<open>rate_limit='1M'\<close>, which the command line passes for
  \<^verbatim>\<open>--rate-limit 1M\<close>, the engine options have no \<^verbatim>\<open>ratelimit\<close> entry.
\<close>

theorem C2_rate_limit_override_ignored:
  "get_ydl_opts L get_default_config [(''rate_limit'', PStr ''1M'')] (\<lambda>_. None) =
     Inr [(''format'', PStr ''best[height<=720][ext=mp4]/best[height<=720]/best''),
          (''outtmpl'', PStr (path_join L ''./downloads'' ''%(title)s.%(ext)s'')),
          (''writesubtitles'', PBool False),
          (''writeautomaticsub'', PBool False),
          (''subtitleslangs'', PList [PStr ''en'']),
          (''ignoreerrors'', PBool True),
          (''no_warnings'', PBool False),
          (''extractaudio'', PBool False),
          (''audioformat'', PStr ''mp3''),
          (''retries'', PInt 3),
          (''socket_timeout'', PInt 30)]"
  by (simp add: get_ydl_opts_def get_format_selector_def resolve_def and_then_def
        get_default_config_def kwargs_get_def create_output_directory_def outtmpl_def
        replace_p_def fmt_def)

text \<open>
  C3. For the resolved quality \<open>q\<close>, format \<open>f\<close> and audio flag \<open>a\<close>: the selector is
  \<^verbatim>\<open>bestaudio/best\<close> whenever audio extraction is requested, whatever quality and format
  are; \<^verbatim>\<open>best[ext=F]/best\<close> for the quality \<^verbatim>\<open>best\<close> and the container \<open>F\<close>; for \<^verbatim>\<open>480p\<close>
  and \<^verbatim>\<open>webm\<close> exactly \<^verbatim>\<open>best[height<=480][ext=webm]/best[height<=480]/best\<close>; and for
  every other quality string the same chain with its height: format and height
  constrained, then height constrained, then unconstrained.
\<close>

theorem C3_format_selector:
  assumes "resolve cfg kwargs ''quality'' ''default_quality'' = Inr q"
    and "resolve cfg kwargs ''format'' ''default_format'' = Inr f"
    and "resolve cfg kwargs ''extract_audio'' ''extract_audio'' = Inr a"
  shows "(truthy a \<longrightarrow> get_format_selector L cfg kwargs = Inr ''bestaudio/best'') \<and>
     (\<not> truthy a \<and> q = PStr ''best'' \<and> f = PStr F \<longrightarrow>
        get_format_selector L cfg kwargs = Inr (''best[ext='' @ F @ '']/best'')) \<and>
     (\<not> truthy a \<and> q = PStr ''480p'' \<and> f = PStr ''webm'' \<longrightarrow>
        get_format_selector L cfg kwargs
          = Inr ''best[height<=480][ext=webm]/best[height<=480]/best'') \<and>
     (\<not> truthy a \<and> q = PStr h \<and> h \<noteq> ''best'' \<and> h \<noteq> ''worst'' \<and> f = PStr F \<longrightarrow>
        get_format_selector L cfg kwargs
          = Inr (''best[height<='' @ filter (\<lambda>c. c \<noteq> CHR ''p'') h @ ''][ext='' @ F
                 @ '']/best[height<='' @ filter (\<lambda>c. c \<noteq> CHR ''p'') h @ '']/best''))"
  using assms
  by (simp add: get_format_selector_def and_then_def fmt_def replace_p_def)

theorem C3_format_selector_witness:
  "get_format_selector example_lib get_default_config
      [(''quality'', PStr ''480p''), (''format'', PStr ''webm'')]
     = Inr ''best[height<=480][ext=webm]/best[height<=480]/best'' \<and>
   get_format_selector example_lib get_default_config
      [(''quality'', PStr ''best''), (''extract_audio'', PBool True)]
     = Inr ''bestaudio/best'' \<and>
   get_format_selector example_lib get_default_config [(''quality'', PStr ''best'')]
     = Inr ''best[ext=mp4]/best''"
proof -
  let ?k1 = "[(''quality'', PStr ''480p''), (''format'', PStr ''webm'')]"
  let ?k2 = "[(''quality'', PStr ''best''), (''extract_audio'', PBool True)]"
  let ?k3 = "[(''quality'', PStr ''best'')]"
  have r1: "resolve get_default_config ?k1 ''quality'' ''default_quality'' = Inr (PStr ''480p'')"
    and r2: "resolve get_default_config ?k1 ''format'' ''default_format'' = Inr (PStr ''webm'')"
    and r3: "resolve get_default_config ?k1 ''extract_audio'' ''extract_audio'' = Inr (PBool False)"
    and r4: "resolve get_default_config ?k2 ''quality'' ''default_quality'' = Inr (PStr ''best'')"
    and r5: "resolve get_default_config ?k2 ''format'' ''default_format'' = Inr (PStr ''mp4'')"
    and r6: "resolve get_default_config ?k2 ''extract_audio'' ''extract_audio'' = Inr (PBool True)"
    and r7: "resolve get_default_config ?k3 ''quality'' ''default_quality'' = Inr (PStr ''best'')"
    and r8: "resolve get_default_config ?k3 ''format'' ''default_format'' = Inr (PStr ''mp4'')"
    and r9: "resolve get_default_config ?k3 ''extract_audio'' ''extract_audio'' = Inr (PBool False)"
    by (simp_all add: resolve_def and_then_def kwargs_get_def get_default_config_def)
  show ?thesis
    using C3_format_selector [OF r1 r2 r3, of example_lib]
      C3_format_selector [OF r4 r5 r6, of example_lib]
      C3_format_selector [OF r7 r8 r9, of example_lib "''mp4''"]
    by simp
qed

section \<open>Properties of batch file loading\<close>

lemma is_space_chars:
  "is_space c \<longleftrightarrow>
     c \<in> {CHR 0x09, CHR 0x0A, CHR 0x0B, CHR 0x0C, CHR 0x0D, CHR 0x1C, CHR 0x1D, CHR 0x1E,
          CHR 0x1F, CHR 0x20, CHR 0x85, CHR 0xA0}"
proof -
  have e: "c = x \<longleftrightarrow> (of_char c :: nat) = of_char x" for x
    by simp
  show ?thesis
    unfolding is_space_def Let_def insert_iff empty_iff e
    by (simp del: of_char_eq_iff) arith
qed

lemma rev_dropWhile_takeWhile:
  "xs = rev (dropWhile P (rev xs)) @ rev (takeWhile P (rev xs))"
proof -
  have "rev (rev xs) = rev (takeWhile P (rev xs) @ dropWhile P (rev xs))"
    by (simp only: takeWhile_dropWhile_id)
  then show ?thesis by (simp only: rev_append rev_rev_ident)
qed

lemma concat_file_lines: "concat (file_lines acc cs) = acc @ cs"
  by (induction cs arbitrary: acc) simp_all

lemma file_lines_shape:
  "CHR 0x0A \<notin> set acc \<Longrightarrow> line \<in> set (file_lines acc cs) \<Longrightarrow>
   line \<noteq> [] \<and> CHR 0x0A \<notin> set (butlast line)"
proof (induction cs arbitrary: acc)
  case Nil
  then show ?case by (auto split: if_splits dest: in_set_butlastD)
next
  case (Cons c cs)
  show ?case
  proof (cases "c = CHR 0x0A")
    case True
    with Cons.prems have "line = acc @ [c] \<or> line \<in> set (file_lines [] cs)" by simp
    then show ?thesis
    proof
      assume "line = acc @ [c]"
      with Cons.prems(1) show ?thesis by simp
    next
      assume "line \<in> set (file_lines [] cs)"
      with Cons.IH [of "[]"] show ?thesis by simp
    qed
  next
    case False
    with Cons.prems have "CHR 0x0A \<notin> set (acc @ [c])" "line \<in> set (file_lines (acc @ [c]) cs)"
      by simp_all
    then show ?thesis by (rule Cons.IH)
  qed
qed

lemma file_lines_terminated:
  "line \<in> set (butlast (file_lines acc cs)) \<Longrightarrow> last line = CHR 0x0A"
proof (induction cs arbitrary: acc)
  case Nil
  then show ?case by (simp split: if_splits)
next
  case (Cons c cs)
  show ?case
  proof (cases "c = CHR 0x0A")
    case True
    with Cons.prems have "line = acc @ [c] \<or> line \<in> set (butlast (file_lines [] cs))"
      by (auto split: if_splits)
    then show ?thesis
    proof
      assume "line = acc @ [c]"
      with True show ?thesis by simp
    next
      assume "line \<in> set (butlast (file_lines [] cs))"
      then show ?thesis by (rule Cons.IH)
    qed
  next
    case False
    with Cons.prems have "line \<in> set (butlast (file_lines (acc @ [c]) cs))" by simp
    then show ?thesis by (rule Cons.IH)
  qed
qed

lemma strip_decomposition:
  "\<exists>pre post. s = pre @ strip s @ post \<and> list_all is_space pre \<and> list_all is_space post"
proof -
  let ?t = "dropWhile is_space s"
  have "s = takeWhile is_space s @ ?t" by simp
  moreover have "?t = strip s @ rev (takeWhile is_space (rev ?t))"
    unfolding strip_def by (rule rev_dropWhile_takeWhile)
  moreover have "list_all is_space (takeWhile is_space s)"
    by (auto simp: list_all_iff dest: set_takeWhileD)
  moreover have "list_all is_space (rev (takeWhile is_space (rev ?t)))"
    by (auto simp: list_all_iff dest: set_takeWhileD)
  ultimately show ?thesis by metis
qed

lemma strip_ends:
  assumes "strip s \<noteq> []"
  shows "\<not> is_space (hd (strip s)) \<and> \<not> is_space (last (strip s))"
proof -
  let ?t = "dropWhile is_space s"
  let ?u = "dropWhile is_space (rev ?t)"
  have u: "?u \<noteq> []" using assms unfolding strip_def by (simp only: rev_is_Nil_conv not_False_eq_True)
  then have l: "\<not> is_space (hd ?u)" by (rule hd_dropWhile)
  have "last (strip s) = hd ?u" using u by (simp add: strip_def last_rev)
  with l have a: "\<not> is_space (last (strip s))" by simp
  have t: "?t \<noteq> []"
  proof
    assume "?t = []"
    then have "?u = []" by (simp only: rev.simps dropWhile.simps)
    with u show False by (simp only: not_True_eq_False)
  qed
  then have h: "\<not> is_space (hd ?t)" by (rule hd_dropWhile)
  have "?t = strip s @ rev (takeWhile is_space (rev ?t))"
    unfolding strip_def by (rule rev_dropWhile_takeWhile)
  then have "hd ?t = hd (strip s)" using assms by (metis hd_append2)
  with h a show ?thesis by simp
qed

lemma dropWhile_all: "(\<forall>x\<in>set (dropWhile P s). P x) \<longleftrightarrow> (\<forall>x\<in>set s. P x)"
proof
  assume a: "\<forall>x\<in>set (dropWhile P s). P x"
  have "dropWhile P s = []"
  proof (rule ccontr)
    assume n: "dropWhile P s \<noteq> []"
    then have "\<not> P (hd (dropWhile P s))" by (rule hd_dropWhile)
    moreover have "hd (dropWhile P s) \<in> set (dropWhile P s)" using n by simp
    ultimately show False using a by blast
  qed
  then show "\<forall>x\<in>set s. P x" by (simp add: dropWhile_eq_Nil_conv)
next
  assume "\<forall>x\<in>set s. P x"
  then show "\<forall>x\<in>set (dropWhile P s). P x" by (auto dest: set_dropWhileD)
qed

lemma strip_empty_iff: "strip s = [] \<longleftrightarrow> list_all is_space s"
  by (simp add: strip_def list_all_iff dropWhile_eq_Nil_conv dropWhile_all)

lemma startswith_hash: "startswith line ''#'' \<longleftrightarrow> take 1 line = ''#''"
  by (simp add: startswith_def)

lemma batch_urls_stripped: "batch_urls ls = map strip (claimed_batch_urls ls)"
  by (induction ls) (simp_all add: claimed_batch_urls_def strip_empty_iff startswith_hash)

lemma example_batch_file_lines:
  "file_lines [] example_batch_file
     = [''a'' @ [CHR 0x0A], ''# c'' @ [CHR 0x0A], '' #d'' @ [CHR 0x0A], [CHR 0x0A],
        ''  b  '' @ [CHR 0x0A], ''e'']"
  by (simp add: example_batch_file_def)

text \<open>
  C8 as stated fails: the returned entries are not the lines of the file but the lines
  stripped of surrounding white space. For the file whose only line is a space followed
  by \<^verbatim>\<open>#x\<close>, the line is kept, since its first character is a space, and the entry
  returned for it is \<^verbatim>\<open>#x\<close>.
\<close>

theorem C8_entries_stripped_counterexample:
  "load_batch_urls (Inr '' #x'') = Inr [''#x''] \<and>
   claimed_batch_urls (file_lines [] '' #x'') = ['' #x'']"
  by (simp add: load_batch_urls_def claimed_batch_urls_def strip_def is_space_chars
      startswith_def)

text \<open>
  C8, amended. For every content of the batch file, loading returns, in the order of the
  file, the lines of the file stripped of surrounding white space, without the lines
  that consist of white space only and without the lines whose first character is
  \<^verbatim>\<open>#\<close>. The statement fixes its terms. White space is the twelve characters listed.
  The lines of the file are the pieces that put together give the content, none empty,
  a newline only as the last character of a piece, and every piece but the last ending
  in a newline. Stripping a line removes a prefix and a suffix of white space and
  leaves a string that neither begins nor ends with white space.
\<close>

theorem C8_load_batch_urls:
  "(is_space c \<longleftrightarrow>
      c \<in> {CHR 0x09, CHR 0x0A, CHR 0x0B, CHR 0x0C, CHR 0x0D, CHR 0x1C, CHR 0x1D, CHR 0x1E,
           CHR 0x1F, CHR 0x20, CHR 0x85, CHR 0xA0}) \<and>
   concat (file_lines [] content) = content \<and>
   (\<forall>line \<in> set (file_lines [] content). line \<noteq> [] \<and> CHR 0x0A \<notin> set (butlast line)) \<and>
   (\<forall>line \<in> set (butlast (file_lines [] content)). last line = CHR 0x0A) \<and>
   (\<exists>pre post. s = pre @ strip s @ post \<and> list_all is_space pre \<and> list_all is_space post) \<and>
   (strip s \<noteq> [] \<longrightarrow> \<not> is_space (hd (strip s)) \<and> \<not> is_space (last (strip s))) \<and>
   load_batch_urls (Inr content)
     = Inr (map strip
         (filter (\<lambda>line. \<not> list_all is_space line \<and> take 1 line \<noteq> ''#'')
            (file_lines [] content)))"
proof (intro conjI ballI impI)
  show "is_space c \<longleftrightarrow>
      c \<in> {CHR 0x09, CHR 0x0A, CHR 0x0B, CHR 0x0C, CHR 0x0D, CHR 0x1C, CHR 0x1D, CHR 0x1E,
           CHR 0x1F, CHR 0x20, CHR 0x85, CHR 0xA0}"
    by (rule is_space_chars)
  show "concat (file_lines [] content) = content"
    by (simp add: concat_file_lines)
  show "\<exists>pre post. s = pre @ strip s @ post \<and> list_all is_space pre \<and> list_all is_space post"
    by (rule strip_decomposition)
  show "load_batch_urls (Inr content)
     = Inr (map strip
         (filter (\<lambda>line. \<not> list_all is_space line \<and> take 1 line \<noteq> ''#'')
            (file_lines [] content)))"
    by (simp add: load_batch_urls_def batch_urls_stripped claimed_batch_urls_def)
next
  fix line
  assume "line \<in> set (file_lines [] content)"
  then have "line \<noteq> [] \<and> CHR 0x0A \<notin> set (butlast line)"
    using file_lines_shape [of "[]" line content] by simp
  then show "line \<noteq> []" "CHR 0x0A \<notin> set (butlast line)" by simp_all
next
  fix line
  assume "line \<in> set (butlast (file_lines [] content))"
  then show "last line = CHR 0x0A" by (rule file_lines_terminated)
next
  assume "strip s \<noteq> []"
  then have "\<not> is_space (hd (strip s)) \<and> \<not> is_space (last (strip s))" by (rule strip_ends)
  then show "\<not> is_space (hd (strip s))" "\<not> is_space (last (strip s))" by simp_all
qed

theorem C8_load_batch_urls_witness:
  "load_batch_urls (Inr example_batch_file) = Inr [''a'', ''#d'', ''b'', ''e''] \<and>
   strip ''  b  '' = ''b'' \<and>
   \<not> is_space (hd (strip ''  b  '')) \<and>
   last (''a'' @ [CHR 0x0A]) = CHR 0x0A"
proof -
  have s: "strip (''a'' @ [CHR 0x0A]) = ''a''" "strip ('' #d'' @ [CHR 0x0A]) = ''#d''"
    "strip (''  b  '' @ [CHR 0x0A]) = ''b''" "strip ''e'' = ''e''" "strip ''  b  '' = ''b''"
    by (simp_all add: strip_def is_space_chars)
  have b: "''a'' @ [CHR 0x0A] \<in> set (butlast (file_lines [] example_batch_file))"
    by (simp add: example_batch_file_lines)
  from C8_load_batch_urls [of _ example_batch_file "''  b  ''"] s b
  show ?thesis
    by (simp add: example_batch_file_lines is_space_chars)
qed

section \<open>Properties of the download orchestrator\<close>

lemma log_to_frame [simp]:
  "stats_of (log_to lvl m s) = stats_of s"
  "download_stats (log_to lvl m s) = download_stats s"
  "next_addr (log_to lvl m s) = next_addr s"
  "config (log_to lvl m s) = config s"
  "heap (log_to lvl m s) = heap s"
  "logger (log_to lvl m s) = logger s @ [(lvl, m)]"
  by (simp_all add: log_to_def stats_of_def)

lemma update_stats_frame [simp]:
  "stats_of (update_stats g s) = g (stats_of s)"
  "download_stats (update_stats g s) = download_stats s"
  "next_addr (update_stats g s) = next_addr s"
  "config (update_stats g s) = config s"
  "logger (update_stats g s) = logger s"
  by (simp_all add: update_stats_def stats_of_def)

lemma stats_le_refl [simp]: "stats_le a a"
  by (simp add: stats_le_def)

lemma stats_le_trans: "stats_le a b \<Longrightarrow> stats_le b c \<Longrightarrow> stats_le a c"
  by (auto simp: stats_le_def)

lemma progress_hook_frame [simp]:
  "download_stats (snd (progress_hook d s)) = download_stats s"
  "next_addr (snd (progress_hook d s)) = next_addr s"
  "config (snd (progress_hook d s)) = config s"
  "logger (snd (progress_hook d s)) = logger s"
  "total_downloads (stats_of (snd (progress_hook d s))) = total_downloads (stats_of s)"
  "failed_downloads (stats_of (snd (progress_hook d s))) = failed_downloads (stats_of s)"
  by (simp_all add: progress_hook_def Let_def split: option.split)

lemma progress_hook_mono:
  "size_nonneg d \<Longrightarrow> stats_le (stats_of s) (stats_of (snd (progress_hook d s)))"
  by (auto simp: progress_hook_def size_nonneg_def stats_le_def Let_def split: option.split)

lemma run_hooks_frame [simp]:
  "download_stats (run_hooks ds s) = download_stats s"
  "next_addr (run_hooks ds s) = next_addr s"
  "config (run_hooks ds s) = config s"
  "logger (run_hooks ds s) = logger s"
  "total_downloads (stats_of (run_hooks ds s)) = total_downloads (stats_of s)"
  "failed_downloads (stats_of (run_hooks ds s)) = failed_downloads (stats_of s)"
  by (induction ds arbitrary: s; simp)+

lemma run_hooks_mono:
  "list_all size_nonneg ds \<Longrightarrow> stats_le (stats_of s) (stats_of (run_hooks ds s))"
proof (induction ds arbitrary: s)
  case Nil
  then show ?case by simp
next
  case (Cons d ds)
  then have "stats_le (stats_of s) (stats_of (snd (progress_hook d s)))"
    by (simp add: progress_hook_mono)
  moreover have "stats_le (stats_of (snd (progress_hook d s)))
      (stats_of (run_hooks ds (snd (progress_hook d s))))"
    using Cons by simp
  ultimately show ?case by (auto intro: stats_le_trans)
qed

lemma download_single_resolved:
  assumes "get_ydl_opts L (config s) kwargs (mkdir env) = Inr opts"
  shows "download_single L url kwargs env s =
    (let s2 = run_hooks (hook_events env)
               (update_stats (\<lambda>st. st\<lparr>total_downloads := total_downloads st + 1\<rparr>)
                  (log_to INFO (Starting_download url) s))
     in case engine_result env of
          None \<Rightarrow> (Inr True, s2)
        | Some e \<Rightarrow> (Inr False,
            update_stats (\<lambda>st. st\<lparr>failed_downloads := failed_downloads st + 1\<rparr>)
              (log_to ERROR (Download_failed url e) s2)))"
  using assms
  by (simp add: download_single_def download_single_try_def run_engine_def Let_def
      split: option.split)

lemma download_single_unresolved:
  assumes "get_ydl_opts L (config s) kwargs (mkdir env) = Inl e"
  shows "download_single L url kwargs env s =
    (Inr False,
       update_stats (\<lambda>st. st\<lparr>failed_downloads := failed_downloads st + 1\<rparr>)
         (log_to ERROR (Download_failed url e)
           (update_stats (\<lambda>st. st\<lparr>total_downloads := total_downloads st + 1\<rparr>)
              (log_to INFO (Starting_download url) s))))"
  using assms
  by (simp add: download_single_def download_single_try_def Let_def)

lemma download_single_returns: "\<exists>b. fst (download_single L url kwargs env s) = Inr b"
  by (cases "get_ydl_opts L (config s) kwargs (mkdir env)")
     (auto simp: download_single_resolved download_single_unresolved Let_def
        split: option.split)

lemma download_single_frame [simp]:
  "download_stats (snd (download_single L url kwargs env s)) = download_stats s"
  "next_addr (snd (download_single L url kwargs env s)) = next_addr s"
  "config (snd (download_single L url kwargs env s)) = config s"
  "total_downloads (stats_of (snd (download_single L url kwargs env s)))
     = total_downloads (stats_of s) + 1"
  by (cases "get_ydl_opts L (config s) kwargs (mkdir env)";
      simp add: download_single_resolved download_single_unresolved Let_def
        split: option.split)+

lemma download_single_mono:
  assumes "list_all size_nonneg (hook_events env)"
  shows "stats_le (stats_of s) (stats_of (snd (download_single L url kwargs env s)))"
proof (cases "get_ydl_opts L (config s) kwargs (mkdir env)")
  case (Inl e)
  then show ?thesis
    by (simp add: download_single_unresolved stats_le_def)
next
  case (Inr opts)
  let ?s1 = "update_stats (\<lambda>st. st\<lparr>total_downloads := total_downloads st + 1\<rparr>)
                  (log_to INFO (Starting_download url) s)"
  have a: "stats_le (stats_of s) (stats_of ?s1)" by (simp add: stats_le_def)
  have b: "stats_le (stats_of ?s1) (stats_of (run_hooks (hook_events env) ?s1))"
    using assms by (rule run_hooks_mono)
  have c: "stats_le (stats_of s) (stats_of (run_hooks (hook_events env) ?s1))"
    using a b by (rule stats_le_trans)
  show ?thesis
  proof (cases "engine_result env")
    case None
    with Inr c show ?thesis by (simp add: download_single_resolved)
  next
    case (Some e)
    with Inr c show ?thesis
      by (simp add: download_single_resolved stats_le_def)
  qed
qed

lemma default_opts_resolve:
  "get_ydl_opts example_lib get_default_config [] (\<lambda>_. None) =
     Inr [(''format'', PStr ''best[height<=720][ext=mp4]/best[height<=720]/best''),
          (''outtmpl'', PStr ''./downloads/%(title)s.%(ext)s''),
          (''writesubtitles'', PBool False),
          (''writeautomaticsub'', PBool False),
          (''subtitleslangs'', PList [PStr ''en'']),
          (''ignoreerrors'', PBool True),
          (''no_warnings'', PBool False),
          (''extractaudio'', PBool False),
          (''audioformat'', PStr ''mp3''),
          (''retries'', PInt 3),
          (''socket_timeout'', PInt 30)]"
  by (simp add: get_ydl_opts_def get_format_selector_def resolve_def and_then_def
        get_default_config_def kwargs_get_def create_output_directory_def outtmpl_def
        replace_p_def fmt_def example_lib_def)

text \<open>
  C4. Every call of single download increments the total-attempts counter by exactly
  one and returns a boolean, never an exception. When the options resolve and the
  engine raises \<open>e\<close>, the call returns false, increments the failure counter by exactly
  one and logs the error as its last record; when the engine raises nothing, the call
  returns true and leaves the failure counter as it was.
\<close>

theorem C4_download_single:
  "total_downloads (stats_of (snd (download_single L url kwargs env s)))
     = total_downloads (stats_of s) + 1 \<and>
   (\<exists>b. fst (download_single L url kwargs env s) = Inr b) \<and>
   (get_ydl_opts L (config s) kwargs (mkdir env) = Inr opts \<and> engine_result env = Some e \<longrightarrow>
      fst (download_single L url kwargs env s) = Inr False \<and>
      failed_downloads (stats_of (snd (download_single L url kwargs env s)))
        = failed_downloads (stats_of s) + 1 \<and>
      last (logger (snd (download_single L url kwargs env s)))
        = (ERROR, Download_failed url e)) \<and>
   (get_ydl_opts L (config s) kwargs (mkdir env) = Inr opts \<and> engine_result env = None \<longrightarrow>
      fst (download_single L url kwargs env s) = Inr True \<and>
      failed_downloads (stats_of (snd (download_single L url kwargs env s)))
        = failed_downloads (stats_of s))"
proof (intro conjI impI)
  show "total_downloads (stats_of (snd (download_single L url kwargs env s)))
     = total_downloads (stats_of s) + 1" by simp
  show "\<exists>b. fst (download_single L url kwargs env s) = Inr b"
    by (rule download_single_returns)
next
  assume a: "get_ydl_opts L (config s) kwargs (mkdir env) = Inr opts \<and> engine_result env = Some e"
  then show "fst (download_single L url kwargs env s) = Inr False"
    by (simp add: download_single_resolved)
  from a show "failed_downloads (stats_of (snd (download_single L url kwargs env s)))
        = failed_downloads (stats_of s) + 1"
    by (simp add: download_single_resolved)
  from a show "last (logger (snd (download_single L url kwargs env s)))
        = (ERROR, Download_failed url e)"
    by (simp add: download_single_resolved)
next
  assume a: "get_ydl_opts L (config s) kwargs (mkdir env) = Inr opts \<and> engine_result env = None"
  then show "fst (download_single L url kwargs env s) = Inr True"
    by (simp add: download_single_resolved)
  from a show "failed_downloads (stats_of (snd (download_single L url kwargs env s)))
        = failed_downloads (stats_of s)"
    by (simp add: download_single_resolved)
qed

theorem C4_download_single_witness:
  "fst (download_single example_lib ''u'' [] failing_env example_state) = Inr False \<and>
   failed_downloads (stats_of (snd (download_single example_lib ''u'' [] failing_env
      example_state))) = 1 \<and>
   total_downloads (stats_of (snd (download_single example_lib ''u'' [] failing_env
      example_state))) = 1 \<and>
   last (logger (snd (download_single example_lib ''u'' [] failing_env example_state)))
      = (ERROR, Download_failed ''u'' (DownloadError ''unavailable'')) \<and>
   fst (download_single example_lib ''u'' [] ok_env example_state) = Inr True \<and>
   failed_downloads (stats_of (snd (download_single example_lib ''u'' [] ok_env
      example_state))) = 0"
proof -
  have c: "config example_state = get_default_config" "mkdir failing_env = (\<lambda>_. None)"
    "mkdir ok_env = (\<lambda>_. None)"
    "engine_result failing_env = Some (DownloadError ''unavailable'')"
    "engine_result ok_env = None"
    "stats_of example_state = zero_stats"
    by (simp_all add: example_state_def failing_env_def ok_env_def stats_of_def)
  show ?thesis
    using C4_download_single [of example_lib "''u''" "[]" failing_env example_state
        _ "DownloadError ''unavailable''"]
      C4_download_single [of example_lib "''u''" "[]" ok_env example_state]
    by (simp add: c default_opts_resolve zero_stats_def)
qed


section \<open>Properties of batch download\<close>

lemma started_urls_append: "started_urls (xs @ ys) = started_urls xs @ started_urls ys"
  by (induction xs rule: started_urls.induct) simp_all

lemma download_single_outcome:
  "fst (download_single L url kwargs env s) = Inr (call_returns L (config s) kwargs env)"
  "failed_downloads (stats_of (snd (download_single L url kwargs env s)))
     = failed_downloads (stats_of s) + (if call_returns L (config s) kwargs env then 0 else 1)"
  "started_urls (logger (snd (download_single L url kwargs env s)))
     = started_urls (logger s) @ [url]"
  by (cases "get_ydl_opts L (config s) kwargs (mkdir env)";
      simp add: call_returns_def resolves_def download_single_resolved
        download_single_unresolved started_urls_append Let_def split: option.split)+

lemma update_absent: "k \<notin> fst ` set al \<Longrightarrow> AList.update k v al = al @ [(k, v)]"
  by (induction al) auto

lemma record_outcomes_map_of:
  "map_of (foldl (\<lambda>r c. AList.update (fst c) (snd (outcome L cfg kwargs c)) r) results calls)
     = map_of (rev (map (outcome L cfg kwargs) calls) @ results)"
proof (induction calls arbitrary: results)
  case Nil
  then show ?case by simp
next
  case (Cons c calls)
  have "map_of (rev (map (outcome L cfg kwargs) calls) @ AList.update (fst c) (snd (outcome L cfg kwargs c)) results)
      = map_of (rev (map (outcome L cfg kwargs) calls) @ [outcome L cfg kwargs c] @ results)"
    by (rule ext) (simp add: update_conv' outcome_def map_add_def split: option.split)
  with Cons show ?case by simp
qed

lemma record_outcomes_keys:
  "fst ` set (foldl (\<lambda>r c. AList.update (fst c) (snd (outcome L cfg kwargs c)) r) results calls)
     = fst ` set results \<union> fst ` set calls"
  by (induction calls arbitrary: results) (auto simp: dom_update)

lemma record_outcomes_distinct:
  "distinct (map fst results) \<Longrightarrow>
   distinct (map fst (foldl (\<lambda>r c. AList.update (fst c) (snd (outcome L cfg kwargs c)) r) results calls))"
  by (induction calls arbitrary: results) (simp_all add: distinct_update)

lemma record_outcomes_fresh:
  "distinct (map fst calls) \<Longrightarrow> fst ` set calls \<inter> fst ` set results = {} \<Longrightarrow>
   foldl (\<lambda>r c. AList.update (fst c) (snd (outcome L cfg kwargs c)) r) results calls
     = results @ map (outcome L cfg kwargs) calls"
proof (induction calls arbitrary: results)
  case Nil
  then show ?case by simp
next
  case (Cons c calls)
  from Cons.prems have fresh: "fst c \<notin> fst ` set results" by auto
  then have u: "AList.update (fst c) (snd (outcome L cfg kwargs c)) results = results @ [outcome L cfg kwargs c]"
    by (simp add: update_absent outcome_def)
  have "fst ` set calls \<inter> fst ` set (results @ [outcome L cfg kwargs c]) = {}"
    using Cons.prems by (auto simp: outcome_def)
  with Cons.IH [of "results @ [outcome L cfg kwargs c]"] Cons.prems u show ?case by simp
qed

lemma batch_loop_Cons:
  assumes "download_single L url kwargs env
      (log_to INFO (Processing_batch_download (length results + 1) n) s) = (Inr b, s2)"
  shows "batch_loop L kwargs n ((url, env) # calls) results s
      = batch_loop L kwargs n calls (AList.update url b results)
          (if \<not> b then log_to WARNING (Failed_to_download url) s2 else s2)"
  using assms by (simp add: Let_def)

lemma batch_loop_outcomes:
  "\<exists>s'. batch_loop L kwargs n calls results s
        = (Inr (foldl (\<lambda>r c. AList.update (fst c) (snd (outcome L (config s) kwargs c)) r)
                 results calls), s') \<and>
      config s' = config s \<and>
      started_urls (logger s') = started_urls (logger s) @ map fst calls \<and>
      total_downloads (stats_of s') = total_downloads (stats_of s) + int (length calls) \<and>
      failed_downloads (stats_of s')
        = failed_downloads (stats_of s)
          + int (length (filter (call_raised L (config s) kwargs) calls))"
proof (induction calls arbitrary: results s)
  case Nil
  then show ?case by simp
next
  case (Cons c calls)
  obtain url env where c: "c = (url, env)" by (cases c)
  let ?s1 = "log_to INFO (Processing_batch_download (length results + 1) n) s"
  let ?s2 = "snd (download_single L url kwargs env ?s1)"
  let ?ok = "call_returns L (config s) kwargs env"
  have d: "download_single L url kwargs env ?s1 = (Inr ?ok, ?s2)"
    using download_single_outcome(1) [of L url kwargs env ?s1] by (simp add: prod_eq_iff)
  let ?s3 = "if \<not> ?ok then log_to WARNING (Failed_to_download url) ?s2 else ?s2"
  have step: "batch_loop L kwargs n (c # calls) results s
      = batch_loop L kwargs n calls (AList.update url ?ok results) ?s3"
    unfolding c by (rule batch_loop_Cons [OF d])
  have f2: "failed_downloads (stats_of ?s2)
      = failed_downloads (stats_of s) + (if ?ok then 0 else 1)"
    using download_single_outcome(2) [of L url kwargs env ?s1] by simp
  have l2: "started_urls (logger ?s2) = started_urls (logger s) @ [url]"
    using download_single_outcome(3) [of L url kwargs env ?s1]
    by (simp add: started_urls_append)
  have c3: "config ?s3 = config s" by simp
  have s3: "started_urls (logger ?s3) = started_urls (logger s) @ [url]"
    "total_downloads (stats_of ?s3) = total_downloads (stats_of s) + 1"
    "failed_downloads (stats_of ?s3) = failed_downloads (stats_of s) + (if ?ok then 0 else 1)"
    using l2 f2 by (simp_all add: started_urls_append)
  from Cons.IH [where results = "AList.update url ?ok results" and s = ?s3]
  obtain s' where ih:
    "batch_loop L kwargs n calls (AList.update url ?ok results) ?s3
        = (Inr (foldl (\<lambda>r c. AList.update (fst c) (snd (outcome L (config s) kwargs c)) r)
                 (AList.update url ?ok results) calls), s')"
    "config s' = config s"
    "started_urls (logger s') = started_urls (logger ?s3) @ map fst calls"
    "total_downloads (stats_of s') = total_downloads (stats_of ?s3) + int (length calls)"
    "failed_downloads (stats_of s')
        = failed_downloads (stats_of ?s3)
          + int (length (filter (call_raised L (config s) kwargs) calls))"
    unfolding c3 by blast
  have ef: "call_raised L (config s) kwargs c \<longleftrightarrow> \<not> ?ok"
    and oc: "outcome L (config s) kwargs c = (url, ?ok)"
    using c by (simp_all add: call_raised_def outcome_def)
  have "batch_loop L kwargs n (c # calls) results s
        = (Inr (foldl (\<lambda>r c. AList.update (fst c) (snd (outcome L (config s) kwargs c)) r)
                 results (c # calls)), s')"
    using step ih(1) c oc by simp
  moreover have "started_urls (logger s') = started_urls (logger s) @ map fst (c # calls)"
    using ih(3) s3(1) c by simp
  moreover have "total_downloads (stats_of s')
      = total_downloads (stats_of s) + int (length (c # calls))"
    using ih(4) s3(2) by simp
  moreover have "failed_downloads (stats_of s')
      = failed_downloads (stats_of s)
        + int (length (filter (call_raised L (config s) kwargs) (c # calls)))"
    using ih(5) s3(3) ef by simp
  ultimately show ?case using ih(2) by blast
qed

lemma example_state_facts:
  "config example_state = get_default_config"
  "stats_of example_state = zero_stats"
  "logger example_state = []"
  "download_stats example_state < next_addr example_state"
  by (simp_all add: example_state_def stats_of_def)

lemma example_env_facts:
  "mkdir ok_env = (\<lambda>_. None)" "engine_result ok_env = None" "hook_events ok_env = []"
  "mkdir failing_env = (\<lambda>_. None)"
  "engine_result failing_env = Some (DownloadError ''unavailable'')"
  "hook_events failing_env = []"
  "mkdir mkdir_failing_env = (\<lambda>_. Some (OSError ''denied''))"
  "engine_result mkdir_failing_env = None"
  by (simp_all add: ok_env_def failing_env_def mkdir_failing_env_def)

lemma example_resolves:
  "resolves example_lib get_default_config [] ok_env"
  "resolves example_lib get_default_config [] failing_env"
  "\<not> resolves example_lib get_default_config [] mkdir_failing_env"
proof -
  show "resolves example_lib get_default_config [] ok_env"
    "resolves example_lib get_default_config [] failing_env"
    by (simp_all add: resolves_def example_env_facts default_opts_resolve)
  have "get_ydl_opts example_lib get_default_config [] (\<lambda>_. Some (OSError ''denied''))
      = Inl (OSError ''denied'')"
    by (simp add: get_ydl_opts_def resolve_def and_then_def get_default_config_def
        kwargs_get_def create_output_directory_def)
  then show "\<not> resolves example_lib get_default_config [] mkdir_failing_env"
    by (simp add: resolves_def example_env_facts)
qed

lemma example_calls:
  "call_returns example_lib get_default_config [] ok_env"
  "\<not> call_returns example_lib get_default_config [] failing_env"
  "\<not> call_returns example_lib get_default_config [] mkdir_failing_env"
  by (simp_all add: call_returns_def example_resolves example_env_facts)

lemma download_batch_outcomes:
  "\<exists>s'. download_batch L calls kwargs s
        = (Inr (foldl (\<lambda>r c. AList.update (fst c) (snd (outcome L (config s) kwargs c)) r)
                 [] calls), s') \<and>
      started_urls (logger s') = started_urls (logger s) @ map fst calls \<and>
      total_downloads (stats_of s') = total_downloads (stats_of s) + int (length calls) \<and>
      failed_downloads (stats_of s')
        = failed_downloads (stats_of s)
          + int (length (filter (call_raised L (config s) kwargs) calls))"
  using batch_loop_outcomes [of L kwargs "length calls" calls "[]" s]
  unfolding download_batch_def by blast

text \<open>
  C5 as stated fails in two ways. The result is a dict keyed by URL, so a URL that
  occurs twice has one entry, holding the outcome of its last call: for two calls on
  the same URL, the first failing in the engine and the second succeeding, the result
  has one entry, and it is true. And an entry is false whenever the call raised, in
  the engine or before it: when the output directory cannot be created, the entry is
  false although no engine call failed.
\<close>

theorem C5_download_batch_counterexample:
  "fst (download_batch example_lib [(''u'', failing_env), (''u'', ok_env)] [] example_state)
     = Inr [(''u'', True)] \<and>
   fst (download_batch example_lib [(''u'', mkdir_failing_env), (''v'', ok_env)] []
          example_state)
     = Inr [(''u'', False), (''v'', True)] \<and>
   engine_result mkdir_failing_env = None"
proof -
  let ?calls = "[(''u'', failing_env), (''u'', ok_env)]"
  let ?calls2 = "[(''u'', mkdir_failing_env), (''v'', ok_env)]"
  let ?o = "outcome example_lib (config example_state) []"
  from download_batch_outcomes [of example_lib ?calls "[]" example_state]
  have "fst (download_batch example_lib ?calls [] example_state)
      = Inr (foldl (\<lambda>r c. AList.update (fst c) (snd (?o c)) r) [] ?calls)"
    by auto
  also have "foldl (\<lambda>r c. AList.update (fst c) (snd (?o c)) r) [] ?calls = [(''u'', True)]"
    by (simp add: outcome_def example_calls example_state_facts)
  finally have a: "fst (download_batch example_lib ?calls [] example_state)
      = Inr [(''u'', True)]" .
  from download_batch_outcomes [of example_lib ?calls2 "[]" example_state]
  have "fst (download_batch example_lib ?calls2 [] example_state)
      = Inr (foldl (\<lambda>r c. AList.update (fst c) (snd (?o c)) r) [] ?calls2)"
    by auto
  also have "foldl (\<lambda>r c. AList.update (fst c) (snd (?o c)) r) [] ?calls2
      = [(''u'', False), (''v'', True)]"
    by (simp add: outcome_def example_calls example_state_facts)
  finally have b: "fst (download_batch example_lib ?calls2 [] example_state)
      = Inr [(''u'', False), (''v'', True)]" .
  from a b show ?thesis by (simp add: example_env_facts)
qed

text \<open>
  C5, amended. For every ordered sequence of N URLs, batch download runs single
  download once per URL, in input order, with no early termination: the downloads the
  log records as started are the input URLs in order. It returns a mapping with one
  entry per distinct URL, each holding the outcome of the last call for that URL. When
  the URLs are pairwise distinct, the mapping has exactly N entries, in input order,
  and its false-valued entries are exactly the URLs whose call raised an exception, in
  the option resolution or in the engine. The total-count increases by N and the
  failed-count by the number of calls that raised.
\<close>

theorem C5_download_batch:
  "\<exists>results s'. download_batch L calls kwargs s = (Inr results, s') \<and>
      started_urls (logger s') = started_urls (logger s) @ map fst calls \<and>
      distinct (map fst results) \<and>
      set (map fst results) = set (map fst calls) \<and>
      map_of results = map_of (rev (map (outcome L (config s) kwargs) calls)) \<and>
      (distinct (map fst calls) \<longrightarrow>
         results = map (outcome L (config s) kwargs) calls \<and>
         length results = length calls \<and>
         {u. (u, False) \<in> set results}
           = fst ` {c \<in> set calls. call_raised L (config s) kwargs c}) \<and>
      total_downloads (stats_of s') = total_downloads (stats_of s) + int (length calls) \<and>
      failed_downloads (stats_of s')
        = failed_downloads (stats_of s)
          + int (length (filter (call_raised L (config s) kwargs) calls))"
proof -
  let ?o = "outcome L (config s) kwargs"
  let ?results = "foldl (\<lambda>r c. AList.update (fst c) (snd (?o c)) r) [] calls"
  from download_batch_outcomes [of L calls kwargs s]
  obtain s' where b: "download_batch L calls kwargs s = (Inr ?results, s')"
    "started_urls (logger s') = started_urls (logger s) @ map fst calls"
    "total_downloads (stats_of s') = total_downloads (stats_of s) + int (length calls)"
    "failed_downloads (stats_of s')
        = failed_downloads (stats_of s)
          + int (length (filter (call_raised L (config s) kwargs) calls))"
    by blast
  have d: "distinct (map fst ?results)" by (rule record_outcomes_distinct) simp
  have k: "set (map fst ?results) = set (map fst calls)"
    using record_outcomes_keys [of L "config s" kwargs "[]" calls] by simp
  have m: "map_of ?results = map_of (rev (map ?o calls))"
    using record_outcomes_map_of [of L "config s" kwargs "[]" calls] by simp
  have f: "distinct (map fst calls) \<longrightarrow>
         ?results = map ?o calls \<and> length ?results = length calls \<and>
         {u. (u, False) \<in> set ?results}
           = fst ` {c \<in> set calls. call_raised L (config s) kwargs c}"
  proof
    assume "distinct (map fst calls)"
    then have e: "?results = map ?o calls"
      using record_outcomes_fresh [of calls "[]" L "config s" kwargs] by simp
    have "{u. (u, False) \<in> set (map ?o calls)}
        = fst ` {c \<in> set calls. call_raised L (config s) kwargs c}"
      by (auto simp: outcome_def call_raised_def image_iff)
    with e show "?results = map ?o calls \<and> length ?results = length calls \<and>
         {u. (u, False) \<in> set ?results}
           = fst ` {c \<in> set calls. call_raised L (config s) kwargs c}"
      by simp
  qed
  from b d k m f show ?thesis by blast
qed

theorem C5_download_batch_witness:
  "fst (download_batch example_lib [(''u'', failing_env), (''v'', ok_env)] [] example_state)
     = Inr [(''u'', False), (''v'', True)] \<and>
   total_downloads (stats_of (snd (download_batch example_lib
      [(''u'', failing_env), (''v'', ok_env)] [] example_state))) = 2 \<and>
   failed_downloads (stats_of (snd (download_batch example_lib
      [(''u'', failing_env), (''v'', ok_env)] [] example_state))) = 1 \<and>
   started_urls (logger (snd (download_batch example_lib
      [(''u'', failing_env), (''v'', ok_env)] [] example_state))) = [''u'', ''v'']"
proof -
  let ?calls = "[(''u'', failing_env), (''v'', ok_env)]"
  let ?o = "outcome example_lib (config example_state) []"
  have d: "distinct (map fst ?calls)" by simp
  from C5_download_batch [of example_lib ?calls "[]" example_state]
  obtain results s' where b:
    "download_batch example_lib ?calls [] example_state = (Inr results, s')"
    "started_urls (logger s') = started_urls (logger example_state) @ map fst ?calls"
    "distinct (map fst ?calls) \<longrightarrow> results = map ?o ?calls"
    "total_downloads (stats_of s')
       = total_downloads (stats_of example_state) + int (length ?calls)"
    "failed_downloads (stats_of s')
       = failed_downloads (stats_of example_state)
         + int (length (filter (call_raised example_lib (config example_state) []) ?calls))"
    by blast
  have "results = [(''u'', False), (''v'', True)]"
    using b(3) d by (simp add: outcome_def example_calls example_state_facts)
  moreover have "started_urls (logger s') = [''u'', ''v'']"
    using b(2) by (simp add: example_state_facts)
  moreover have "total_downloads (stats_of s') = 2"
    using b(4) by (simp add: example_state_facts zero_stats_def)
  moreover have "failed_downloads (stats_of s') = 1"
    using b(5) by (simp add: example_state_facts zero_stats_def call_raised_def
        example_calls)
  ultimately show ?thesis by (simp add: b(1))
qed

section \<open>Properties of the statistics\<close>

lemma batch_loop_frame:
  "download_stats (snd (batch_loop L kwargs n calls results s)) = download_stats s \<and>
   next_addr (snd (batch_loop L kwargs n calls results s)) = next_addr s"
proof (induction calls arbitrary: results s)
  case Nil
  then show ?case by simp
next
  case (Cons c calls)
  obtain url env where c: "c = (url, env)" by (cases c)
  let ?s1 = "log_to INFO (Processing_batch_download (length results + 1) n) s"
  let ?s2 = "snd (download_single L url kwargs env ?s1)"
  obtain b where b: "download_single L url kwargs env ?s1 = (Inr b, ?s2)"
    using download_single_returns [of L url kwargs env ?s1] by (auto simp: prod_eq_iff)
  let ?s3 = "if \<not> b then log_to WARNING (Failed_to_download url) ?s2 else ?s2"
  have step: "batch_loop L kwargs n (c # calls) results s
      = batch_loop L kwargs n calls (AList.update url b results) ?s3"
    unfolding c by (rule batch_loop_Cons [OF b])
  have "download_stats ?s3 = download_stats s" "next_addr ?s3 = next_addr s"
    by simp_all
  with Cons.IH [of "AList.update url b results" ?s3] step show ?case by simp
qed

lemma batch_loop_mono:
  assumes "list_all (\<lambda>c. list_all size_nonneg (hook_events (snd c))) calls"
  shows "stats_le (stats_of s) (stats_of (snd (batch_loop L kwargs n calls results s)))"
  using assms
proof (induction calls arbitrary: results s)
  case Nil
  then show ?case by simp
next
  case (Cons c calls)
  obtain url env where c: "c = (url, env)" by (cases c)
  let ?s1 = "log_to INFO (Processing_batch_download (length results + 1) n) s"
  let ?s2 = "snd (download_single L url kwargs env ?s1)"
  obtain b where b: "download_single L url kwargs env ?s1 = (Inr b, ?s2)"
    using download_single_returns [of L url kwargs env ?s1] by (auto simp: prod_eq_iff)
  let ?s3 = "if \<not> b then log_to WARNING (Failed_to_download url) ?s2 else ?s2"
  have step: "batch_loop L kwargs n (c # calls) results s
      = batch_loop L kwargs n calls (AList.update url b results) ?s3"
    unfolding c by (rule batch_loop_Cons [OF b])
  from Cons.prems c have "list_all size_nonneg (hook_events env)" by simp
  then have "stats_le (stats_of ?s1) (stats_of ?s2)" by (rule download_single_mono)
  then have a: "stats_le (stats_of s) (stats_of ?s3)" by simp
  from Cons.prems have "list_all (\<lambda>c. list_all size_nonneg (hook_events (snd c))) calls"
    by simp
  from Cons.IH [OF this, where s = ?s3 and results = "AList.update url b results"]
  have "stats_le (stats_of ?s3)
      (stats_of (snd (batch_loop L kwargs n calls (AList.update url b results) ?s3)))" .
  with a step show ?case by (auto intro: stats_le_trans)
qed

lemma download_playlist_frame [simp]:
  "download_stats (snd (download_playlist L url kwargs env s)) = download_stats s"
  "next_addr (snd (download_playlist L url kwargs env s)) = next_addr s"
  by (simp_all add: download_playlist_def download_playlist_try_def run_engine_def Let_def
      split: sum.split option.split)

lemma download_playlist_mono:
  assumes "list_all size_nonneg (hook_events env)"
  shows "stats_le (stats_of s) (stats_of (snd (download_playlist L url kwargs env s)))"
proof -
  have "stats_le (stats_of (log_to INFO (Starting_playlist_download url) s))
     (stats_of (run_hooks (hook_events env) (log_to INFO (Starting_playlist_download url) s)))"
    using assms by (rule run_hooks_mono)
  then show ?thesis
    by (simp add: download_playlist_def download_playlist_try_def run_engine_def Let_def
        split: sum.split option.split)
qed

lemma get_video_info_frame [simp]:
  "stats_of (snd (get_video_info extracted s)) = stats_of s"
  "download_stats (snd (get_video_info extracted s)) = download_stats s"
  "next_addr (snd (get_video_info extracted s)) = next_addr s"
  by (simp_all add: get_video_info_def split: sum.split)

lemma get_download_stats_frame:
  "download_stats s < next_addr s \<Longrightarrow> stats_of (snd (get_download_stats s)) = stats_of s"
  by (simp add: get_download_stats_def stats_of_def)

lemma reset_stats_zero: "stats_of (reset_stats s) = zero_stats"
  by (simp add: reset_stats_def stats_of_def)

lemma init_allocated: "init L f = Inr s \<Longrightarrow> download_stats s < next_addr s"
  by (auto simp: init_def split: prod.splits sum.splits)

lemma step_allocated:
  "download_stats s < next_addr s \<Longrightarrow> download_stats (step L op s) < next_addr (step L op s)"
  by (cases op)
     (simp_all add: download_batch_def batch_loop_frame get_download_stats_def reset_stats_def)

lemma counts_le_refl [simp]: "counts_le a a"
  by (simp add: counts_le_def)

lemma counts_le_trans: "counts_le a b \<Longrightarrow> counts_le b c \<Longrightarrow> counts_le a c"
  by (auto simp: counts_le_def)

lemma progress_hook_counts:
  "counts_le (stats_of s) (stats_of (snd (progress_hook d s)))"
  by (auto simp: progress_hook_def counts_le_def Let_def split: option.split)

lemma run_hooks_counts: "counts_le (stats_of s) (stats_of (run_hooks ds s))"
proof (induction ds arbitrary: s)
  case Nil
  then show ?case by simp
next
  case (Cons d ds)
  have "counts_le (stats_of s) (stats_of (snd (progress_hook d s)))"
    by (rule progress_hook_counts)
  moreover have "counts_le (stats_of (snd (progress_hook d s)))
      (stats_of (run_hooks ds (snd (progress_hook d s))))"
    by (rule Cons.IH)
  ultimately show ?case by (auto intro: counts_le_trans)
qed

lemma download_single_counts:
  "counts_le (stats_of s) (stats_of (snd (download_single L url kwargs env s)))"
proof (cases "get_ydl_opts L (config s) kwargs (mkdir env)")
  case (Inl e)
  then show ?thesis
    by (simp add: download_single_unresolved counts_le_def)
next
  case (Inr opts)
  let ?s1 = "update_stats (\<lambda>st. st\<lparr>total_downloads := total_downloads st + 1\<rparr>)
                  (log_to INFO (Starting_download url) s)"
  have a: "counts_le (stats_of s) (stats_of ?s1)" by (simp add: counts_le_def)
  have b: "counts_le (stats_of ?s1) (stats_of (run_hooks (hook_events env) ?s1))"
    by (rule run_hooks_counts)
  have c: "counts_le (stats_of s) (stats_of (run_hooks (hook_events env) ?s1))"
    using a b by (rule counts_le_trans)
  show ?thesis
  proof (cases "engine_result env")
    case None
    with Inr c show ?thesis by (simp add: download_single_resolved)
  next
    case (Some e)
    with Inr c show ?thesis
      by (simp add: download_single_resolved counts_le_def)
  qed
qed

lemma batch_loop_counts:
  "counts_le (stats_of s) (stats_of (snd (batch_loop L kwargs n calls results s)))"
proof (induction calls arbitrary: results s)
  case Nil
  then show ?case by simp
next
  case (Cons c calls)
  obtain url env where c: "c = (url, env)" by (cases c)
  let ?s1 = "log_to INFO (Processing_batch_download (length results + 1) n) s"
  let ?s2 = "snd (download_single L url kwargs env ?s1)"
  obtain b where b: "download_single L url kwargs env ?s1 = (Inr b, ?s2)"
    using download_single_returns [of L url kwargs env ?s1] by (auto simp: prod_eq_iff)
  let ?s3 = "if \<not> b then log_to WARNING (Failed_to_download url) ?s2 else ?s2"
  have step: "batch_loop L kwargs n (c # calls) results s
      = batch_loop L kwargs n calls (AList.update url b results) ?s3"
    unfolding c by (rule batch_loop_Cons [OF b])
  have "counts_le (stats_of ?s1) (stats_of ?s2)" by (rule download_single_counts)
  then have a: "counts_le (stats_of s) (stats_of ?s3)" by simp
  have "counts_le (stats_of ?s3)
      (stats_of (snd (batch_loop L kwargs n calls (AList.update url b results) ?s3)))"
    by (rule Cons.IH)
  with a step show ?case by (auto intro: counts_le_trans)
qed

lemma download_playlist_counts:
  "counts_le (stats_of s) (stats_of (snd (download_playlist L url kwargs env s)))"
proof -
  have "counts_le (stats_of (log_to INFO (Starting_playlist_download url) s))
     (stats_of (run_hooks (hook_events env) (log_to INFO (Starting_playlist_download url) s)))"
    by (rule run_hooks_counts)
  then show ?thesis
    by (simp add: download_playlist_def download_playlist_try_def run_engine_def Let_def
        split: sum.split option.split)
qed

lemma step_counts:
  assumes "op \<noteq> Reset_stats" "download_stats s < next_addr s"
  shows "counts_le (stats_of s) (stats_of (step L op s))"
proof (cases op)
  case (Download_single url kwargs env)
  then show ?thesis by (simp add: download_single_counts)
next
  case (Download_batch calls kwargs)
  then show ?thesis by (simp add: download_batch_def batch_loop_counts)
next
  case (Download_playlist url kwargs env)
  then show ?thesis by (simp add: download_playlist_counts)
next
  case (Get_video_info extracted)
  then show ?thesis by simp
next
  case Get_download_stats
  with assms show ?thesis by (simp add: get_download_stats_frame)
next
  case (Progress_hook d)
  then show ?thesis by (simp add: progress_hook_counts)
next
  case Reset_stats
  with assms show ?thesis by simp
qed

lemma step_mono:
  assumes "op \<noteq> Reset_stats" "sizes_nonneg op" "download_stats s < next_addr s"
  shows "stats_le (stats_of s) (stats_of (step L op s))"
proof (cases op)
  case (Download_single url kwargs env)
  with assms show ?thesis by (simp add: download_single_mono)
next
  case (Download_batch calls kwargs)
  with assms show ?thesis by (simp add: download_batch_def batch_loop_mono)
next
  case (Download_playlist url kwargs env)
  with assms show ?thesis by (simp add: download_playlist_mono)
next
  case (Get_video_info extracted)
  then show ?thesis by simp
next
  case Get_download_stats
  with assms show ?thesis by (simp add: get_download_stats_frame)
next
  case (Progress_hook d)
  with assms show ?thesis by (simp add: progress_hook_mono)
next
  case Reset_stats
  with assms show ?thesis by simp
qed

text \<open>
  C7 as stated fails for the cumulative size: a finished progress event adds the byte
  total it reports as it is, so an event reporting a negative total decreases it.
\<close>

theorem C7_negative_size_counterexample:
  "total_size (stats_of example_state) = 0 \<and>
   total_size (stats_of (step example_lib (Progress_hook negative_event) example_state))
     = - 5"
  by (simp add: progress_hook_def negative_event_def Let_def example_state_facts
      zero_stats_def)

text \<open>
  C7, amended. Under every operation other than the reset (single, batch and playlist
  download, the info query, reading the statistics, a progress event), the counters of
  total, successful and failed downloads after the operation are at least what they
  were before; the cumulative size is at least what it was before when no progress
  event of the operation reports a negative byte total. The reset sets all four
  counters to zero, whatever they were.
\<close>

theorem C7_counters_monotone_reset_zero:
  "(op \<noteq> Reset_stats \<and> download_stats s < next_addr s \<longrightarrow>
      total_downloads (stats_of s) \<le> total_downloads (stats_of (step L op s)) \<and>
      successful_downloads (stats_of s) \<le> successful_downloads (stats_of (step L op s)) \<and>
      failed_downloads (stats_of s) \<le> failed_downloads (stats_of (step L op s))) \<and>
   (op \<noteq> Reset_stats \<and> download_stats s < next_addr s \<and> sizes_nonneg op \<longrightarrow>
      total_size (stats_of s) \<le> total_size (stats_of (step L op s))) \<and>
   total_downloads (stats_of (step L Reset_stats s)) = 0 \<and>
   successful_downloads (stats_of (step L Reset_stats s)) = 0 \<and>
   failed_downloads (stats_of (step L Reset_stats s)) = 0 \<and>
   total_size (stats_of (step L Reset_stats s)) = 0"
  using step_mono [of op s L] step_counts [of op s L]
  by (simp add: reset_stats_zero zero_stats_def stats_le_def counts_le_def)

theorem C7_counters_monotone_reset_zero_witness:
  "stats_of (step example_lib (Progress_hook finished_event) example_state)
     = \<lparr>total_downloads = 0, successful_downloads = 1, failed_downloads = 0,
        total_size = 1000\<rparr> \<and>
   total_size (stats_of example_state)
     \<le> total_size (stats_of (step example_lib (Progress_hook finished_event) example_state)) \<and>
   successful_downloads (stats_of example_state)
     \<le> successful_downloads (stats_of (step example_lib (Progress_hook negative_event)
          example_state)) \<and>
   stats_of (step example_lib Reset_stats
      (step example_lib (Progress_hook finished_event) example_state)) = zero_stats"
proof -
  have e: "stats_of (step example_lib (Progress_hook finished_event) example_state)
     = \<lparr>total_downloads = 0, successful_downloads = 1, failed_downloads = 0,
        total_size = 1000\<rparr>"
    by (simp add: progress_hook_def finished_event_def Let_def example_state_facts
        zero_stats_def)
  have h: "Progress_hook finished_event \<noteq> Reset_stats"
    "Progress_hook negative_event \<noteq> Reset_stats"
    "sizes_nonneg (Progress_hook finished_event)"
    "download_stats example_state < next_addr example_state"
    by (simp_all add: size_nonneg_def finished_event_def example_state_facts)
  show ?thesis
    using C7_counters_monotone_reset_zero
      [of "Progress_hook finished_event" example_state example_lib]
      C7_counters_monotone_reset_zero
      [of "Progress_hook negative_event" example_state example_lib] h e
    by (simp add: reset_stats_zero)
qed




section \<open>Properties of the video information query\<close>

lemma get_video_info_returns: "\<exists>r. fst (get_video_info extracted s) = Inr r"
  by (simp add: get_video_info_def split: sum.split)

lemma get_video_info_engine_failure:
  "get_video_info (Inl e) s = (Inr None, log_to ERROR (Failed_to_get_video_info e) s)"
  by (simp add: get_video_info_def and_then_def)

lemma py_get_dict: "py_get (PDict kvs) k d = Inr (kwargs_get kvs k d)"
  by (simp add: kwargs_get_def split: option.split)

lemma description_field_present:
  "map_of kvs ''description'' = Some (PStr d) \<Longrightarrow> d \<noteq> [] \<Longrightarrow>
   description_field (PDict kvs) = Inr (PStr (take 200 d @ ''...''))"
  by (simp add: description_field_def and_then_def)

lemma description_field_absent:
  "\<not> truthy (kwargs_get kvs ''description'' PNone) \<Longrightarrow>
   description_field (PDict kvs) = Inr PNone"
  by (simp add: description_field_def and_then_def py_get_dict del: py_get.simps)

lemma snapshot_description:
  assumes "map_of kvs ''description'' = Some (PStr d)" "d \<noteq> []"
    and "format_descriptors (PDict kvs) = Inr fs"
  shows "\<exists>snap. snapshot (PDict kvs) = Inr snap \<and>
     subscript snap ''description'' = Inr (PStr (take 200 d @ ''...''))"
  using assms(3) description_field_present [OF assms(1) assms(2)]
  by (simp add: snapshot_def and_then_def py_get_dict del: py_get.simps)

lemma snapshot_no_description:
  assumes "\<not> truthy (kwargs_get kvs ''description'' PNone)"
    and "format_descriptors (PDict kvs) = Inr fs"
  shows "\<exists>snap. snapshot (PDict kvs) = Inr snap \<and> subscript snap ''description'' = Inr PNone"
  using assms(2) description_field_absent [OF assms(1)]
  by (simp add: snapshot_def and_then_def py_get_dict del: py_get.simps)

lemma example_info_formats:
  "format_descriptors example_info
     = Inr [PDict [(''format_id'', PStr ''18''), (''ext'', PStr ''mp4''),
                   (''height'', PInt 360)]]"
  by (simp add: format_descriptors_def example_info_def and_then_def format_descriptor_def)

text \<open>
  C6. The info query always returns to its caller, never an exception. On an engine
  failure \<open>e\<close> it returns the absent result, after logging the failure. On an info dict
  whose formats can be described, it returns a snapshot: when the description is a
  non-empty string \<open>d\<close>, the snapshot's description is the first 200 characters of \<open>d\<close>
  followed by the ellipsis marker; when there is no description, or an empty one, the
  snapshot's description is None.
\<close>

theorem C6_get_video_info:
  "(\<exists>r. fst (get_video_info extracted s) = Inr r) \<and>
   (extracted = Inl e \<longrightarrow>
      get_video_info extracted s
        = (Inr None, log_to ERROR (Failed_to_get_video_info e) s)) \<and>
   (extracted = Inr (PDict kvs) \<and> format_descriptors (PDict kvs) = Inr fs \<and>
    map_of kvs ''description'' = Some (PStr d) \<and> d \<noteq> [] \<longrightarrow>
      (\<exists>snap. get_video_info extracted s = (Inr (Some snap), s) \<and>
         subscript snap ''description'' = Inr (PStr (take 200 d @ ''...'')))) \<and>
   (extracted = Inr (PDict kvs) \<and> format_descriptors (PDict kvs) = Inr fs \<and>
    \<not> truthy (kwargs_get kvs ''description'' PNone) \<longrightarrow>
      (\<exists>snap. get_video_info extracted s = (Inr (Some snap), s) \<and>
         subscript snap ''description'' = Inr PNone))"
proof (intro conjI impI)
  show "\<exists>r. fst (get_video_info extracted s) = Inr r" by (rule get_video_info_returns)
next
  assume "extracted = Inl e"
  then show "get_video_info extracted s
      = (Inr None, log_to ERROR (Failed_to_get_video_info e) s)"
    by (simp add: get_video_info_engine_failure)
next
  assume a: "extracted = Inr (PDict kvs) \<and> format_descriptors (PDict kvs) = Inr fs \<and>
    map_of kvs ''description'' = Some (PStr d) \<and> d \<noteq> []"
  then obtain snap where "snapshot (PDict kvs) = Inr snap"
    "subscript snap ''description'' = Inr (PStr (take 200 d @ ''...''))"
    using snapshot_description [of kvs d fs] by blast
  with a show "\<exists>snap. get_video_info extracted s = (Inr (Some snap), s) \<and>
         subscript snap ''description'' = Inr (PStr (take 200 d @ ''...''))"
    by (simp add: get_video_info_def and_then_def)
next
  assume a: "extracted = Inr (PDict kvs) \<and> format_descriptors (PDict kvs) = Inr fs \<and>
    \<not> truthy (kwargs_get kvs ''description'' PNone)"
  then obtain snap where "snapshot (PDict kvs) = Inr snap"
    "subscript snap ''description'' = Inr PNone"
    using snapshot_no_description [of kvs fs] by blast
  with a show "\<exists>snap. get_video_info extracted s = (Inr (Some snap), s) \<and>
         subscript snap ''description'' = Inr PNone"
    by (simp add: get_video_info_def and_then_def)
qed

theorem C6_get_video_info_witness:
  "(\<exists>snap. get_video_info (Inr example_info) example_state = (Inr (Some snap), example_state) \<and>
      subscript snap ''description'' = Inr (PStr ''A description...'')) \<and>
   fst (get_video_info (Inl (DownloadError ''unavailable'')) example_state) = Inr None"
proof -
  let ?kvs = "[(''title'', PStr ''A title''), (''description'', PStr ''A description''),
      (''formats'', PList [PDict [(''format_id'', PStr ''18''), (''ext'', PStr ''mp4''),
                     (''height'', PInt 360)]])]"
  have i: "example_info = PDict ?kvs" by (simp add: example_info_def)
  have d: "map_of ?kvs ''description'' = Some (PStr ''A description'')" by simp
  show ?thesis
    using C6_get_video_info [of "Inr example_info" example_state _ ?kvs _ "''A description''"]
      C6_get_video_info [of "Inl (DownloadError ''unavailable'')" example_state
        "DownloadError ''unavailable''"]
      example_info_formats
    unfolding i by simp
qed

section \<open>A parsed configuration is used as it is\<close>

lemma load_config_parsed:
  assumes "path_exists f" "file_open f = Inr c"
    and "(lower (path_suffix f) = ''.yaml'' \<and> yaml_safe_load L c = Inr v) \<or>
         (lower (path_suffix f) = ''.json'' \<and> json_load L c = Inr v)"
  shows "load_config L lg f = (Inr v, lg)"
  using assms by (auto simp: load_config_def load_config_try_def)

lemma get_format_selector_missing_quality:
  "map_of kvs ''default_quality'' = None \<Longrightarrow>
   get_format_selector L (PDict kvs) kwargs = Inl (KeyError ''default_quality'')"
  by (simp add: get_format_selector_def resolve_def and_then_def)

lemma get_ydl_opts_missing_quality:
  assumes "map_of kvs ''default_quality'' = None"
    and "map_of kvs ''output_directory'' = Some d"
    and "kwargs_get kwargs ''output_directory'' d = PStr p" "mk p = None"
  shows "get_ydl_opts L (PDict kvs) kwargs mk = Inl (KeyError ''default_quality'')"
  using assms
  by (simp add: get_ydl_opts_def resolve_def and_then_def create_output_directory_def
      get_format_selector_missing_quality)

text \<open>
  C9. When the configuration file exists, has the suffix of YAML or JSON and parses to
  \<open>v\<close>, the constructor succeeds and the configuration is \<open>v\<close> itself: no default is
  merged into it. When \<open>v\<close> is a dict without the key \<^verbatim>\<open>default_quality\<close> (and the output
  directory resolves and can be created), deriving the format selector and resolving
  the options raise \<^verbatim>\<open>KeyError\<close> on that key, whatever the overrides are, also when they
  give a quality; single download catches that error, logs it and returns false.
\<close>

theorem C9_parsed_config_verbatim:
  assumes "path_exists f" "file_open f = Inr c"
    and "(lower (path_suffix f) = ''.yaml'' \<and> yaml_safe_load L c = Inr v) \<or>
         (lower (path_suffix f) = ''.json'' \<and> json_load L c = Inr v)"
  shows "\<exists>s. init L f = Inr s \<and> config s = v \<and>
     (v = PDict kvs \<and> map_of kvs ''default_quality'' = None \<and>
      map_of kvs ''output_directory'' = Some d \<and>
      kwargs_get kwargs ''output_directory'' d = PStr p \<and> mkdir env p = None \<longrightarrow>
        get_format_selector L (config s) kwargs = Inl (KeyError ''default_quality'') \<and>
        get_ydl_opts L (config s) kwargs (mkdir env) = Inl (KeyError ''default_quality'') \<and>
        fst (download_single L url kwargs env s) = Inr False \<and>
        last (logger (snd (download_single L url kwargs env s)))
          = (ERROR, Download_failed url (KeyError ''default_quality'')))"
proof -
  let ?s = "\<lparr>config = v, logger = [], download_stats = 0,
               heap = (\<lambda>_. zero_stats), next_addr = 1\<rparr>"
  have i: "init L f = Inr ?s"
    using load_config_parsed [OF assms, of None] by (simp add: init_def)
  have "v = PDict kvs \<and> map_of kvs ''default_quality'' = None \<and>
      map_of kvs ''output_directory'' = Some d \<and>
      kwargs_get kwargs ''output_directory'' d = PStr p \<and> mkdir env p = None \<longrightarrow>
        get_format_selector L (config ?s) kwargs = Inl (KeyError ''default_quality'') \<and>
        get_ydl_opts L (config ?s) kwargs (mkdir env) = Inl (KeyError ''default_quality'') \<and>
        fst (download_single L url kwargs env ?s) = Inr False \<and>
        last (logger (snd (download_single L url kwargs env ?s)))
          = (ERROR, Download_failed url (KeyError ''default_quality''))"
  proof
    assume a: "v = PDict kvs \<and> map_of kvs ''default_quality'' = None \<and>
      map_of kvs ''output_directory'' = Some d \<and>
      kwargs_get kwargs ''output_directory'' d = PStr p \<and> mkdir env p = None"
    then have o: "get_ydl_opts L (config ?s) kwargs (mkdir env)
        = Inl (KeyError ''default_quality'')"
      by (simp add: get_ydl_opts_missing_quality)
    from a have "get_format_selector L (config ?s) kwargs = Inl (KeyError ''default_quality'')"
      by (simp add: get_format_selector_missing_quality)
    with o show "get_format_selector L (config ?s) kwargs = Inl (KeyError ''default_quality'') \<and>
        get_ydl_opts L (config ?s) kwargs (mkdir env) = Inl (KeyError ''default_quality'') \<and>
        fst (download_single L url kwargs env ?s) = Inr False \<and>
        last (logger (snd (download_single L url kwargs env ?s)))
          = (ERROR, Download_failed url (KeyError ''default_quality''))"
      by (simp add: download_single_unresolved)
  qed
  with i show ?thesis by simp
qed

theorem C9_parsed_config_verbatim_witness:
  "\<exists>s. init partial_lib partial_file = Inr s \<and> config s = partial_config \<and>
     get_ydl_opts partial_lib (config s) [(''quality'', PStr ''720p'')] (mkdir ok_env)
       = Inl (KeyError ''default_quality'') \<and>
     fst (download_single partial_lib ''u'' [(''quality'', PStr ''720p'')] ok_env s) = Inr False"
proof -
  let ?kvs = "[(''default_format'', PStr ''mp4''),
      (''output_directory'', PStr ''./downloads''),
      (''max_concurrent_downloads'', PInt 3),
      (''retry_attempts'', PInt 3),
      (''timeout'', PInt 30),
      (''extract_audio'', PBool False),
      (''audio_format'', PStr ''mp3''),
      (''download_subtitles'', PBool False),
      (''subtitle_languages'', PList [PStr ''en'']),
      (''filename_template'', PStr ''%(title)s.%(ext)s''),
      (''rate_limit'', PNone)]"
  have h: "path_exists partial_file" "file_open partial_file = Inr []"
    "(lower (path_suffix partial_file) = ''.yaml'' \<and> yaml_safe_load partial_lib [] = Inr partial_config) \<or>
     (lower (path_suffix partial_file) = ''.json'' \<and> json_load partial_lib [] = Inr partial_config)"
    by (simp_all add: partial_file_def partial_lib_def lower_def lower_char_def)
  have k: "partial_config = PDict ?kvs" "map_of ?kvs ''default_quality'' = None"
    "map_of ?kvs ''output_directory'' = Some (PStr ''./downloads'')"
    "kwargs_get [(''quality'', PStr ''720p'')] ''output_directory'' (PStr ''./downloads'')
       = PStr ''./downloads''"
    "mkdir ok_env ''./downloads'' = None"
    by (simp_all add: partial_config_def kwargs_get_def ok_env_def)
  from C9_parsed_config_verbatim [OF h, of ?kvs "PStr ''./downloads''"
      "[(''quality'', PStr ''720p'')]" "''./downloads''" ok_env "''u''"] k
  show ?thesis by auto
qed


end
